theory Spec2Isabelle
  imports Main "HOL-Library.AList"
begin

section \<open>Python strings\<close>

text \<open>
  A Python \<^verbatim>\<open>str\<close> is a sequence of Unicode code points; it is modelled as a list of
  natural numbers. ASCII literals of the source are written through \<open>asc\<close>.
\<close>

type_synonym pystr = "nat list"

definition asc :: "string \<Rightarrow> pystr" where
  "asc s = map of_char s"

text \<open>The non-ASCII glyphs that occur in \<^verbatim>\<open>holy_tree_server.py\<close>.\<close>

definition BRANCH_T :: nat where "BRANCH_T = 9500"      \<comment> \<open>U+251C, the tee branch glyph\<close>
definition BRANCH_L :: nat where "BRANCH_L = 9492"      \<comment> \<open>U+2514, the corner branch glyph\<close>
definition HBAR :: nat where "HBAR = 9472"              \<comment> \<open>U+2500, horizontal bar\<close>
definition VBAR :: nat where "VBAR = 9474"              \<comment> \<open>U+2502, vertical bar\<close>
definition FOLDER :: nat where "FOLDER = 128193"        \<comment> \<open>U+1F4C1, folder icon\<close>
definition TARGET :: nat where "TARGET = 127919"        \<comment> \<open>U+1F3AF\<close>
definition PACKAGE :: nat where "PACKAGE = 128230"      \<comment> \<open>U+1F4E6\<close>
definition PAGE :: nat where "PAGE = 128196"            \<comment> \<open>U+1F4C4\<close>

lemmas glyph_defs = BRANCH_T_def BRANCH_L_def HBAR_def VBAR_def FOLDER_def TARGET_def
  PACKAGE_def PAGE_def

text \<open>
  The character classes of \<^verbatim>\<open>re\<close> on \<^verbatim>\<open>str\<close> patterns are Unicode aware. Whitespace
  (\<^verbatim>\<open>\s\<close>, \<^verbatim>\<open>str.strip\<close>, \<^verbatim>\<open>str.split\<close>) is a short fixed list. Decimal digits
  (\<^verbatim>\<open>\d\<close>) and word characters (\<^verbatim>\<open>\w\<close>) are fixed on ASCII; beyond ASCII they come from
  the Unicode character database, which is not part of the repository and is a parameter of
  the model. In Unicode no decimal digit is whitespace.
\<close>

definition is_space :: "nat \<Rightarrow> bool" where
  "is_space c \<longleftrightarrow>
     (9 \<le> c \<and> c \<le> 13) \<or> (28 \<le> c \<and> c \<le> 32) \<or> c = 133 \<or> c = 160 \<or> c = 5760 \<or>
     (8192 \<le> c \<and> c \<le> 8202) \<or> c = 8232 \<or> c = 8233 \<or> c = 8239 \<or> c = 8287 \<or> c = 12288"

record ucd =
  uni_decimal :: "nat \<Rightarrow> bool"
  uni_alnum :: "nat \<Rightarrow> bool"

definition is_digit :: "ucd \<Rightarrow> nat \<Rightarrow> bool" where
  "is_digit U c \<longleftrightarrow> (if c < 128 then 48 \<le> c \<and> c \<le> 57 else uni_decimal U c)"

definition is_word :: "ucd \<Rightarrow> nat \<Rightarrow> bool" where
  "is_word U c \<longleftrightarrow>
     (if c < 128
      then (48 \<le> c \<and> c \<le> 57) \<or> (65 \<le> c \<and> c \<le> 90) \<or> (97 \<le> c \<and> c \<le> 122) \<or> c = 95
      else uni_alnum U c)"

text \<open>
  The table that classifies no code point beyond ASCII as a digit or as alphanumeric. It
  agrees with Unicode on the box-drawing glyphs and icons used in the concrete inputs below.
\<close>

definition ucd_ascii :: ucd where
  "ucd_ascii = \<lparr>uni_decimal = (\<lambda>c. False), uni_alnum = (\<lambda>c. False)\<rparr>"

definition strip :: "pystr \<Rightarrow> pystr" where
  "strip s = rev (dropWhile is_space (rev (dropWhile is_space s)))"

definition strip_char :: "nat \<Rightarrow> pystr \<Rightarrow> pystr" where
  "strip_char d s = rev (dropWhile (\<lambda>c. c = d) (rev (dropWhile (\<lambda>c. c = d) s)))"

definition startswith :: "pystr \<Rightarrow> pystr \<Rightarrow> bool" where
  "startswith s p \<longleftrightarrow> take (length p) s = p"

text \<open>\<^verbatim>\<open>p in s\<close> on strings.\<close>

fun contains :: "pystr \<Rightarrow> pystr \<Rightarrow> bool" where
  "contains [] p = (p = [])"
| "contains (c # cs) p = (startswith (c # cs) p \<or> contains cs p)"

text \<open>\<^verbatim>\<open>s.split(d)\<close> for a one-character separator: never the empty list.\<close>

fun split_char :: "nat \<Rightarrow> pystr \<Rightarrow> pystr list" where
  "split_char d [] = [[]]"
| "split_char d (c # cs) =
     (if c = d then [] # split_char d cs
      else (case split_char d cs of
              w # ws \<Rightarrow> (c # w) # ws
            | [] \<Rightarrow> [[c]]))"

text \<open>\<^verbatim>\<open>sep.join(xs)\<close>.\<close>

fun join :: "pystr \<Rightarrow> pystr list \<Rightarrow> pystr" where
  "join sep [] = []"
| "join sep [x] = x"
| "join sep (x # y # ys) = x @ sep @ join sep (y # ys)"

text \<open>
  \<^verbatim>\<open>s.split()\<close> cuts at runs of whitespace and drops empty pieces; the source only ever
  reads its first element. \<open>first_token\<close> is that element, and the empty string when
  there is none.
\<close>

definition first_token :: "pystr \<Rightarrow> pystr" where
  "first_token s = takeWhile (\<lambda>c. \<not> is_space c) (dropWhile is_space s)"

text \<open>
  \<^verbatim>\<open>s.replace(old, new)\<close>: every non-overlapping occurrence, left to right. For an empty
  \<open>old\<close> Python puts \<open>new\<close> before every character and at the end.
\<close>

fun replace_from :: "pystr \<Rightarrow> pystr \<Rightarrow> pystr \<Rightarrow> pystr" where
  "replace_from old new [] = []"
| "replace_from old new (c # cs) =
     (if startswith (c # cs) old then new @ replace_from old new (drop (length old - 1) cs)
      else c # replace_from old new cs)"

definition replace :: "pystr \<Rightarrow> pystr \<Rightarrow> pystr \<Rightarrow> pystr" where
  "replace s old new = (if old = [] then replace_from old new s @ new else replace_from old new s)"

section \<open>Entities and the parser\<close>

datatype entity_type = Domain | Object | Layer

text \<open>
  The classification dictionary of an entity. The parser always stores the empty
  dictionary; the generator reads four keys with \<^verbatim>\<open>.get\<close>.
\<close>

record classification =
  project_structure :: "bool option"
  description :: "pystr option"
  objects_count :: "int option"
  layers :: "pystr list option"

definition empty_classification :: classification where
  "empty_classification =
     \<lparr>project_structure = None, description = None, objects_count = None, layers = None\<rparr>"

record entity =
  name :: pystr
  etype :: entity_type
  number :: pystr
  level :: nat
  parent_path :: pystr
  classif :: classification
  ascii_line :: pystr

subsection \<open>The regular expressions of the line parser\<close>

text \<open>
  \<^verbatim>\<open>re.search(r'[TL]--\s*(.+)$', line)\<close>, where \<^verbatim>\<open>T\<close> and \<^verbatim>\<open>L\<close> stand for the two
  branch glyphs and \<^verbatim>\<open>-\<close> for the horizontal bar. \<^verbatim>\<open>(.+)$\<close> matches a non-empty run
  without newline that reaches the end of the string or the newline that ends it. The
  greedy \<^verbatim>\<open>\s*\<close> first takes all the whitespace after the bars and gives it back one
  character at a time; the search takes the leftmost glyph position where this succeeds.
\<close>

definition dot_plus_end :: "pystr \<Rightarrow> pystr option" where
  "dot_plus_end s =
     (let g = takeWhile (\<lambda>c. c \<noteq> 10) s in
      if g \<noteq> [] \<and> (drop (length g) s = [] \<or> drop (length g) s = [10]) then Some g else None)"

fun backtrack_ws :: "nat \<Rightarrow> pystr \<Rightarrow> pystr option" where
  "backtrack_ws 0 w = dot_plus_end w"
| "backtrack_ws (Suc k) w =
     (case dot_plus_end (drop (Suc k) w) of
        Some g \<Rightarrow> Some g
      | None \<Rightarrow> backtrack_ws k w)"

fun search_branch :: "pystr \<Rightarrow> pystr option" where
  "search_branch [] = None"
| "search_branch (c # cs) =
     (if (c = BRANCH_T \<or> c = BRANCH_L) \<and> take 2 cs = [HBAR, HBAR] then
        (case backtrack_ws (length (takeWhile is_space (drop 2 cs))) (drop 2 cs) of
           Some g \<Rightarrow> Some g
         | None \<Rightarrow> search_branch cs)
      else search_branch cs)"

text \<open>
  \<^verbatim>\<open>^([\d]+(?:\.[\d]+)*(?:\.[1-5])?)\s+\<close>: the longest prefix of the shape digits, then
  dot-digits groups, which must be followed by whitespace. A shorter candidate ends before
  a digit or a dot, never before whitespace, so backtracking finds nothing more, and the
  optional last group is always empty.
\<close>

function dotted_groups :: "ucd \<Rightarrow> pystr \<Rightarrow> pystr" where
  "dotted_groups U s =
     (case s of
        [] \<Rightarrow> []
      | c # t \<Rightarrow>
          if c = 46 \<and> takeWhile (is_digit U) t \<noteq> []
          then c # takeWhile (is_digit U) t @ dotted_groups U (dropWhile (is_digit U) t)
          else [])"
  by pat_completeness auto
termination
  by (relation "measure (\<lambda>(U, s). length s)") (auto simp: length_dropWhile_le less_Suc_eq_le)

definition number_match :: "ucd \<Rightarrow> pystr \<Rightarrow> pystr option" where
  "number_match U content =
     (let d = takeWhile (is_digit U) content in
      if d = [] then None
      else
        (let n = d @ dotted_groups U (dropWhile (is_digit U) content) in
         case drop (length n) content of
           [] \<Rightarrow> None
         | c # _ \<Rightarrow> if is_space c then Some n else None))"

subsection \<open>\<^verbatim>\<open>HolyTreeParser._parse_ascii_line\<close>\<close>

definition parse_ascii_line :: "ucd \<Rightarrow> pystr \<Rightarrow> pystr list \<Rightarrow> entity option" where
  "parse_ascii_line U original_line current_path =
     (let line = strip original_line in
      if \<not> (contains line [BRANCH_T, HBAR, HBAR] \<or> contains line [BRANCH_L, HBAR, HBAR])
      then None
      else
        case search_branch line of
          None \<Rightarrow> None
        | Some g \<Rightarrow>
            (let content = strip g in
             case number_match U content of
               None \<Rightarrow> None
             | Some num \<Rightarrow>
                 (let entity_content = strip (replace content num []) in
                  if entity_content = [] then None
                  else
                    (let iconless_content =
                           (if FOLDER \<in> set entity_content
                            then strip (replace (replace entity_content [FOLDER, 32] []) [47] [])
                            else strip (replace entity_content [47] []));
                         entity_type =
                           (if length (split_char 46 num) = 1 \<and> FOLDER \<in> set entity_content
                            then Domain
                            else if length (split_char 46 num) \<ge> 2 \<and> FOLDER \<in> set entity_content
                            then Object
                            else Layer);
                         nm = strip_char 95
                                (map (\<lambda>c. if is_word U c then c else 95) iconless_content)
                     in
                     if nm = [] then None
                     else Some \<lparr>name = nm, etype = entity_type, number = num,
                                 level = length (split_char 46 num),
                                 parent_path = join [47] (filter (\<lambda>p. p \<noteq> []) current_path),
                                 classif = empty_classification,
                                 ascii_line = original_line\<rparr>))))"

subsection \<open>\<^verbatim>\<open>HolyTreeParser.parse_holy_tree\<close>\<close>

text \<open>
  The entity dictionary keeps insertion order; storing under a key that is already there
  replaces the value in place. That is \<open>AList.update\<close> on an association list.
\<close>

type_synonym graph = "(pystr \<times> entity) list"

text \<open>\<^verbatim>\<open>s.split('.')[0]\<close>; the split of a string is never empty.\<close>

definition first_component :: "pystr \<Rightarrow> pystr" where
  "first_component n = (case split_char 46 n of [] \<Rightarrow> [] | a # _ \<Rightarrow> a)"

fun parse_lines :: "ucd \<Rightarrow> pystr list \<Rightarrow> graph \<Rightarrow> pystr list \<Rightarrow> graph" where
  "parse_lines U [] ents current_path = ents"
| "parse_lines U (line # rest) ents current_path =
     (if strip line = [] \<or> startswith (strip line) [35] then parse_lines U rest ents current_path
      else
        case parse_ascii_line U line current_path of
          None \<Rightarrow> parse_lines U rest ents current_path
        | Some e \<Rightarrow>
            parse_lines U rest (AList.update (number e) e ents)
              (case etype e of
                 Domain \<Rightarrow> [number e]
               | Object \<Rightarrow> [first_component (number e), number e]
               | Layer \<Rightarrow>
                   if length current_path \<ge> 2
                   then [current_path ! 0, current_path ! 1, number e]
                   else current_path))"

record statistics =
  total_domains :: nat
  total_objects :: nat
  total_layers :: nat
  tree_depth :: nat

definition count_type :: "entity_type \<Rightarrow> graph \<Rightarrow> nat" where
  "count_type t ents = length (filter (\<lambda>(n, e). etype e = t) ents)"

definition update_statistics :: "graph \<Rightarrow> statistics" where
  "update_statistics ents =
     \<lparr>total_domains = count_type Domain ents,
      total_objects = count_type Object ents,
      total_layers = count_type Layer ents,
      tree_depth = fold max (map (\<lambda>(n, e). level e) ents) 0\<rparr>"

section \<open>The file system and the server state\<close>

text \<open>
  Paths are lists of segments below the working directory. A file system maps the paths
  that exist to what stands there. In a well-formed file system whatever exists lies in a
  directory.
\<close>

type_synonym path = "pystr list"

datatype node = Dir | File pystr

type_synonym filesys = "path \<Rightarrow> node option"

definition wf_fs :: "filesys \<Rightarrow> bool" where
  "wf_fs f \<longleftrightarrow> (\<forall>p. f p \<noteq> None \<and> butlast p \<noteq> [] \<longrightarrow> f (butlast p) = Some Dir)"

definition path_exists :: "filesys \<Rightarrow> path \<Rightarrow> bool" where
  "path_exists f p \<longleftrightarrow> f p \<noteq> None"

definition path_prefixes :: "path \<Rightarrow> path list" where
  "path_prefixes p = map (\<lambda>k. take k p) [1..<Suc (length p)]"

datatype py_error = OSError | AttributeError

text \<open>
  \<^verbatim>\<open>Path.mkdir(parents=True, exist_ok=True)\<close>: fails, creating nothing, when the path or
  one of its ancestors is a file; otherwise every missing ancestor and the path itself
  become directories.
\<close>

definition is_file :: "filesys \<Rightarrow> path \<Rightarrow> bool" where
  "is_file f p = (case f p of Some (File c) \<Rightarrow> True | _ \<Rightarrow> False)"

definition mkdir_parents :: "filesys \<Rightarrow> path \<Rightarrow> py_error + filesys" where
  "mkdir_parents f p =
     (if \<exists>q \<in> set (path_prefixes p). is_file f q then Inl OSError
      else Inr (\<lambda>q. if q \<in> set (path_prefixes p) then Some Dir else f q))"

text \<open>
  \<^verbatim>\<open>Path.write_text\<close>: fails on a directory and where the parent is not a directory. It
  also fails where the operating system refuses the write (no space left, no permission to
  write in the directory); \<open>refused\<close> holds the paths where it does. Otherwise the file
  holds the new content.
\<close>

definition write_text :: "(path \<Rightarrow> bool) \<Rightarrow> filesys \<Rightarrow> path \<Rightarrow> pystr \<Rightarrow> py_error + filesys" where
  "write_text refused f p content =
     (if refused p then Inl OSError
      else if f p = Some Dir then Inl OSError
      else if butlast p \<noteq> [] \<and> f (butlast p) \<noteq> Some Dir then Inl OSError
      else Inr (f(p := Some (File content))))"

text \<open>
  The state the server works on: the canonical text as \<^verbatim>\<open>read_text\<close> returns it
  (\<open>None\<close> when the file cannot be read), the parser's entity dictionary and statistics,
  the file system below the working directory, and the paths at which the operating system
  refuses to write a file. The canonical file itself lies outside the generated tree and is
  kept apart from \<open>fs\<close>.
\<close>

record server =
  tree_file :: "pystr option"
  entities :: graph
  stats :: statistics
  fs :: filesys
  write_refused :: "path \<Rightarrow> bool"

record parse_report =
  entities_count :: nat
  domains :: nat
  objects :: nat
  layer_count :: nat
  max_depth :: nat

text \<open>\<open>None\<close> is the result with \<^verbatim>\<open>parsed_successfully\<close> false.\<close>

definition parse_holy_tree :: "ucd \<Rightarrow> server \<Rightarrow> parse_report option \<times> server" where
  "parse_holy_tree U st =
     (case tree_file st of
        None \<Rightarrow> (None, st)
      | Some content \<Rightarrow>
          (let ents = parse_lines U (split_char 10 content) [] [];
               s = update_statistics ents
           in (Some \<lparr>entities_count = length ents,
                      domains = count_type Domain ents,
                      objects = count_type Object ents,
                      layer_count = count_type Layer ents,
                      max_depth = tree_depth s\<rparr>,
               st\<lparr>entities := ents, stats := s\<rparr>)))"

section \<open>\<^verbatim>\<open>HolyTreeParser.validate_holy_tree_structure\<close>\<close>

text \<open>\<^verbatim>\<open>str(n)\<close> for integers.\<close>

function str_nat :: "nat \<Rightarrow> pystr" where
  "str_nat n = (if n < 10 then [48 + n] else str_nat (n div 10) @ [48 + n mod 10])"
  by pat_completeness auto
termination
  by (relation "measure id") auto

definition str_int :: "int \<Rightarrow> pystr" where
  "str_int i = (if i < 0 then 45 # str_nat (nat (- i)) else str_nat (nat i))"

definition parent_number :: "pystr \<Rightarrow> pystr" where
  "parent_number n = join [46] (butlast (split_char 46 n))"

definition missing_parent :: "graph \<Rightarrow> pystr \<times> entity \<Rightarrow> bool" where
  "missing_parent ents ne \<longleftrightarrow> level (snd ne) > 1 \<and> map_of ents (parent_number (fst ne)) = None"

definition missing_parent_message :: "pystr \<Rightarrow> pystr" where
  "missing_parent_message n =
     asc ''Missing parent for '' @ n @ asc '': parent '' @ parent_number n @ asc '' not found''"

definition missing_parent_issues :: "graph \<Rightarrow> pystr list" where
  "missing_parent_issues ents =
     concat (map (\<lambda>ne. if missing_parent ents ne then [missing_parent_message (fst ne)] else [])
               ents)"

definition get_entities_by_level :: "graph \<Rightarrow> nat \<Rightarrow> entity list" where
  "get_entities_by_level ents l = filter (\<lambda>e. level e = l) (map snd ents)"

record validation =
  valid :: bool
  issues :: "pystr list"
  integrity_score :: pystr

text \<open>
  The second loop calls \<^verbatim>\<open>num.match(\<dots>)\<close> on a \<^verbatim>\<open>str\<close>, which has no such method: its
  first iteration raises \<^verbatim>\<open>AttributeError\<close>, and nothing catches it.
\<close>

definition validate_holy_tree_structure :: "graph \<Rightarrow> py_error + validation" where
  "validate_holy_tree_structure ents =
     (let iss = missing_parent_issues ents;
          domain_numbers = map number (get_entities_by_level ents 1)
      in if domain_numbers \<noteq> [] then Inl AttributeError
         else Inr \<lparr>valid = (length iss = 0),
                   issues = iss,
                   integrity_score = str_int (100 - int (length iss) * 10) @ [37]\<rparr>)"

section \<open>\<^verbatim>\<open>HolyTreeProjectGenerator\<close>\<close>

definition project_root :: path where
  "project_root = [asc ''ROMILLM_Project'']"

definition get_entity_by_number :: "graph \<Rightarrow> pystr \<Rightarrow> entity option" where
  "get_entity_by_number ents n = map_of ents n"

text \<open>
  \<^verbatim>\<open>_construct_directory_path\<close>. \<open>path_parts\<close> is the list the source builds; it stays
  empty when a lookup misses, and the returned path is then the project root itself. Names
  are taken as single path segments: the parser leaves only word characters in a name.
\<close>

definition path_parts :: "graph \<Rightarrow> entity \<Rightarrow> path" where
  "path_parts ents e =
     (case etype e of
        Domain \<Rightarrow> [name e]
      | Object \<Rightarrow>
          (case get_entity_by_number ents (first_component (number e)) of
             Some domain_entity \<Rightarrow> [name domain_entity, name e]
           | None \<Rightarrow> [])
      | Layer \<Rightarrow>
          (let parts = split_char 46 (number e) in
           if length parts \<ge> 2 then
             (case get_entity_by_number ents (first_component (number e)) of
                None \<Rightarrow> []
              | Some domain_entity \<Rightarrow>
                  (case get_entity_by_number ents (join [46] (take 2 parts)) of
                     None \<Rightarrow> []
                   | Some object_entity \<Rightarrow> [name domain_entity, name object_entity, name e]))
           else []))"

definition construct_directory_path :: "graph \<Rightarrow> entity \<Rightarrow> path" where
  "construct_directory_path ents e = project_root @ path_parts ents e"

text \<open>\<^verbatim>\<open>str(path)\<close>.\<close>

definition path_str :: "path \<Rightarrow> pystr" where
  "path_str p = join [47] p"

definition readme_content :: "entity \<Rightarrow> pystr" where
  "readme_content e =
     asc ''# '' @ name e @ [10, 10] @
     (case description (classif e) of
        None \<Rightarrow> asc ''Architecture component description''
      | Some d \<Rightarrow> d) @ [10, 10] @
     (case etype e of
        Domain \<Rightarrow>
          asc ''## Domain Overview'' @ [10, 10] @ asc ''This domain contains '' @
          str_int (case objects_count (classif e) of None \<Rightarrow> 0 | Some k \<Rightarrow> k) @
          asc '' core objects.'' @ [10]
      | Object \<Rightarrow>
          asc ''## Object Overview'' @ [10, 10] @ asc ''This object implements the '' @ name e @
          asc '' component.'' @ [10] @
          asc ''**Location:** '' @ number e @ [10] @
          asc ''**Layers:** '' @
          join (asc '', '') (case layers (classif e) of None \<Rightarrow> [] | Some ls \<Rightarrow> ls) @ [10]
      | Layer \<Rightarrow> [])"

text \<open>\<^verbatim>\<open>_generate_basic_files\<close>: one \<^verbatim>\<open>README.md\<close> in the directory.\<close>

definition generate_basic_files :: "(path \<Rightarrow> bool) \<Rightarrow> filesys \<Rightarrow> entity \<Rightarrow> path \<Rightarrow> py_error + filesys" where
  "generate_basic_files refused f e dir_path =
     write_text refused f (dir_path @ [asc ''README.md'']) (readme_content e)"

datatype create_mode = Incremental | Full | Validate

record gen_progress =
  gp_fs :: filesys
  created_directories :: "pystr list"
  generated_files :: "pystr list"

text \<open>
  One round of the loop over the entities. The test
  \<^verbatim>\<open>entity.type in ['domain', 'object', 'layer']\<close> holds for every entity. An exception
  leaves the loop; the file system keeps what was done before it, also the directory whose
  descriptor could not be written.
\<close>

definition generate_step :: "(path \<Rightarrow> bool) \<Rightarrow> create_mode \<Rightarrow> graph \<Rightarrow> entity \<Rightarrow> gen_progress \<Rightarrow> filesys + gen_progress" where
  "generate_step refused create_mode ents e g =
     (let dir_path = construct_directory_path ents e in
      if create_mode = Full \<or> \<not> path_exists (gp_fs g) dir_path then
        (case mkdir_parents (gp_fs g) dir_path of
           Inl err \<Rightarrow> Inl (gp_fs g)
         | Inr f1 \<Rightarrow>
             if etype e = Domain \<or> etype e = Object then
               (case generate_basic_files refused f1 e dir_path of
                  Inl err \<Rightarrow> Inl f1
                | Inr f2 \<Rightarrow>
                    Inr \<lparr>gp_fs = f2,
                         created_directories = created_directories g @ [path_str dir_path],
                         generated_files =
                           generated_files g @ [path_str dir_path @ asc ''/README.md'']\<rparr>)
             else
               Inr \<lparr>gp_fs = f1,
                    created_directories = created_directories g @ [path_str dir_path],
                    generated_files = generated_files g\<rparr>)
      else Inr g)"

fun generate_loop :: "(path \<Rightarrow> bool) \<Rightarrow> create_mode \<Rightarrow> graph \<Rightarrow> graph \<Rightarrow> gen_progress \<Rightarrow> filesys + gen_progress" where
  "generate_loop refused create_mode ents [] g = Inr g"
| "generate_loop refused create_mode ents ((n, e) # rest) g =
     (case generate_step refused create_mode ents e g of
        Inl f \<Rightarrow> Inl f
      | Inr g' \<Rightarrow> generate_loop refused create_mode ents rest g')"

record validation_result =
  holy_tree_valid :: bool
  project_structure_valid :: bool
  missing_directories :: "pystr list"
  extra_directories :: "pystr list"
  consistency_score :: pystr

definition validate_project_structure :: "ucd \<Rightarrow> server \<Rightarrow> validation_result \<times> server" where
  "validate_project_structure U st =
     (case parse_holy_tree U st of
        (None, st1) \<Rightarrow>
          (\<lparr>holy_tree_valid = False, project_structure_valid = True,
            missing_directories = [], extra_directories = [],
            consistency_score = asc ''100%''\<rparr>, st1)
      | (Some r, st1) \<Rightarrow>
          (let missing =
                 map path_str
                   (filter (\<lambda>p. \<not> path_exists (fs st1) p)
                      (map (\<lambda>(n, e). construct_directory_path (entities st1) e) (entities st1)))
           in (\<lparr>holy_tree_valid = True,
                 project_structure_valid = (missing = []),
                 missing_directories = missing,
                 extra_directories = [],
                 consistency_score =
                   (if missing \<noteq> [] then str_int (max 0 (100 - int (length missing) * 5)) @ [37]
                    else asc ''100%'')\<rparr>, st1)))"

record gen_report =
  gen_create_mode :: create_mode
  directories_created :: nat
  files_generated :: nat
  total_project_entities :: nat
  directories_list :: "pystr list"
  files_list :: "pystr list"

datatype gen_result =
    Generated gen_report                \<comment> \<open>\<^verbatim>\<open>success\<close> true\<close>
  | ParseFailed                         \<comment> \<open>\<^verbatim>\<open>success\<close> false, \<^verbatim>\<open>Failed to parse Holy Tree\<close>\<close>
  | GenerationError                     \<comment> \<open>\<^verbatim>\<open>success\<close> false, an exception in the loop\<close>
  | Validation validation_result       \<comment> \<open>mode \<^verbatim>\<open>validate\<close>\<close>

definition gen_success :: "gen_result \<Rightarrow> bool" where
  "gen_success r = (case r of Generated rep \<Rightarrow> True | _ \<Rightarrow> False)"

definition generate_project_from_holy_tree :: "ucd \<Rightarrow> create_mode \<Rightarrow> server \<Rightarrow> gen_result \<times> server" where
  "generate_project_from_holy_tree U create_mode st =
     (if create_mode = Validate then
        (case validate_project_structure U st of (v, st1) \<Rightarrow> (Validation v, st1))
      else
        case parse_holy_tree U st of
          (None, st1) \<Rightarrow> (ParseFailed, st1)
        | (Some r, st1) \<Rightarrow>
            (case generate_loop (write_refused st1) create_mode (entities st1) (entities st1)
                    \<lparr>gp_fs = fs st1, created_directories = [], generated_files = []\<rparr> of
               Inl f \<Rightarrow> (GenerationError, st1\<lparr>fs := f\<rparr>)
             | Inr g \<Rightarrow>
                 (Generated
                    \<lparr>gen_create_mode = create_mode,
                     directories_created = length (created_directories g),
                     files_generated = length (generated_files g),
                     total_project_entities =
                       length (filter (\<lambda>(n, e). project_structure (classif e) = Some True)
                                 (entities st1)),
                     directories_list = created_directories g,
                     files_list = generated_files g\<rparr>,
                  st1\<lparr>fs := gp_fs g\<rparr>)))"

section \<open>\<^verbatim>\<open>HolyTreeMCPServer\<close>: editing the canonical text\<close>

text \<open>The first index whose element satisfies the test: a \<^verbatim>\<open>for\<close> loop left by \<^verbatim>\<open>break\<close>.\<close>

fun find_first :: "('a \<Rightarrow> bool) \<Rightarrow> 'a list \<Rightarrow> nat option" where
  "find_first P [] = None"
| "find_first P (x # xs) = (if P x then Some 0 else map_option Suc (find_first P xs))"

text \<open>\<^verbatim>\<open>xs.insert(k, x)\<close> for \<open>k \<ge> 0\<close>; past the end it appends.\<close>

definition list_insert :: "nat \<Rightarrow> 'a \<Rightarrow> 'a list \<Rightarrow> 'a list" where
  "list_insert k x xs = take k xs @ x # drop k xs"

text \<open>\<^verbatim>\<open>re.match(r'^\d+$', t)\<close> on a token, which holds no whitespace.\<close>

definition all_digits :: "ucd \<Rightarrow> pystr \<Rightarrow> bool" where
  "all_digits U t \<longleftrightarrow> t \<noteq> [] \<and> list_all (is_digit U) t"

text \<open>\<^verbatim>\<open>re.search(r'^\d+\.?\d*', t)\<close>: everything after the first digit is optional.\<close>

definition starts_with_digit :: "ucd \<Rightarrow> pystr \<Rightarrow> bool" where
  "starts_with_digit U t = (case t of [] \<Rightarrow> False | c # _ \<Rightarrow> is_digit U c)"

subsection \<open>\<^verbatim>\<open>add_entity_to_holy_tree\<close>\<close>

text \<open>
  The configuration dictionary. The three required keys default to the empty string, which
  the check that follows rejects like a missing key; the key \<^verbatim>\<open>classification\<close> is read
  and never used.
\<close>

record entity_config =
  entity_name :: pystr
  domain :: pystr
  proposed_number :: pystr
  cfg_description :: "pystr option"
  cfg_layers :: "pystr list option"

definition default_layers :: "pystr list" where
  "default_layers = [asc ''Config'', asc ''Toolbox'', asc ''Core'', asc ''Api'', asc ''Tests'']"

text \<open>
  The scan for the end of the domain, from index \<open>i\<close> on; \<open>ins\<close> is \<^verbatim>\<open>insert_index\<close>.
\<close>

fun domain_end :: "ucd \<Rightarrow> pystr list \<Rightarrow> nat \<Rightarrow> nat \<Rightarrow> nat" where
  "domain_end U [] i ins = ins"
| "domain_end U (l # ls) i ins =
     (if startswith (strip l) [BRANCH_T, HBAR, HBAR, 32] \<or>
         startswith (strip l) [BRANCH_L, HBAR, HBAR, 32]
      then
        (if first_token (strip l) \<noteq> [] \<and> all_digits U (first_token (strip l)) then i
         else domain_end U ls (Suc i) (Suc i))
      else domain_end U ls (Suc i) (Suc i))"

definition find_insert_index :: "ucd \<Rightarrow> entity_config \<Rightarrow> pystr list \<Rightarrow> nat option" where
  "find_insert_index U cfg lines =
     (case find_first
             (\<lambda>line. contains line (domain cfg @ [47]) \<and>
                     startswith (proposed_number cfg) (first_token (strip line))) lines of
        Some i \<Rightarrow> Some (i + 1)
      | None \<Rightarrow>
          (case find_first
                  (\<lambda>line. contains line (domain cfg @ [47]) \<or> contains line (domain cfg @ [47]))
                  lines of
             None \<Rightarrow> None
           | Some domain_start \<Rightarrow>
               Some (domain_end U (drop (domain_start + 1) lines)
                       (domain_start + 1) (domain_start + 1))))"

definition object_line :: "entity_config \<Rightarrow> pystr" where
  "object_line cfg =
     [VBAR, 32, 32, 32, BRANCH_T, HBAR, HBAR, 32] @ proposed_number cfg @ [32, FOLDER, 32] @
     entity_name cfg @ asc ''/          # '' @ [TARGET] @ asc '' Object: '' @
     (case cfg_description cfg of None \<Rightarrow> asc ''New component'' | Some d \<Rightarrow> d)"

definition layer_line :: "entity_config \<Rightarrow> nat \<Rightarrow> pystr \<Rightarrow> pystr" where
  "layer_line cfg i layer =
     [VBAR, 32, 32, 32, VBAR, 32, 32, 32, BRANCH_T, HBAR, HBAR, 32] @ proposed_number cfg @
     [46] @ str_nat i @ [32] @ layer @ asc ''/                # '' @ [PACKAGE] @
     asc '' Layer '' @ str_nat i @ asc '': '' @ layer"

definition domain_line :: "entity_config \<Rightarrow> pystr" where
  "domain_line cfg =
     [BRANCH_T, HBAR, HBAR, 32] @ proposed_number cfg @ [32, FOLDER, 32] @
     entity_name cfg @ asc ''/          # '' @ [TARGET] @ asc '' DOMAIN: '' @
     (case cfg_description cfg of None \<Rightarrow> asc ''New domain'' | Some d \<Rightarrow> d)"

definition readme_line :: pystr where
  "readme_line =
     [VBAR, 32, 32, 32, BRANCH_L, HBAR, HBAR, 32, PAGE] @
     asc '' README.md                # Domain constitution document''"

text \<open>The new lines spliced in at \<open>k\<close>, and the line reported back.\<close>

definition splice_entity :: "entity_config \<Rightarrow> nat \<Rightarrow> pystr list \<Rightarrow> pystr \<times> pystr list" where
  "splice_entity cfg k lines =
     (if length (split_char 46 (proposed_number cfg)) = 2 then
        (let ls = (case cfg_layers cfg of None \<Rightarrow> default_layers | Some xs \<Rightarrow> xs);
             layer_lines = map (\<lambda>(i, layer). layer_line cfg i layer) (zip [1..<Suc (length ls)] ls)
         in (object_line cfg,
             fold (\<lambda>ll acc. list_insert (k + 1) ll acc) (rev layer_lines)
               (list_insert k (object_line cfg) lines)))
      else
        (domain_line cfg,
         list_insert (k + 1) readme_line (list_insert k (domain_line cfg) lines)))"

record add_report =
  entity_added :: pystr
  project_structure_generated :: bool
  number_assigned :: pystr
  ascii_line_added :: pystr

datatype add_result =
    Added add_report          \<comment> \<open>\<^verbatim>\<open>success\<close> true\<close>
  | MissingFields             \<comment> \<open>\<^verbatim>\<open>success\<close> false, \<^verbatim>\<open>Missing required fields\<close>\<close>
  | AddFailed                 \<comment> \<open>\<^verbatim>\<open>success\<close> false, an exception\<close>

text \<open>
  The function returns a dictionary on three paths and falls off its end on the fourth,
  which in Python returns \<^verbatim>\<open>None\<close>: the result is an option. A canonical file that could be
  read can be written.
\<close>

definition add_entity_to_holy_tree :: "ucd \<Rightarrow> entity_config \<Rightarrow> server \<Rightarrow> add_result option \<times> server" where
  "add_entity_to_holy_tree U cfg st =
     (if entity_name cfg = [] \<or> domain cfg = [] \<or> proposed_number cfg = [] then
        (Some MissingFields, st)
      else
        case tree_file st of
          None \<Rightarrow> (Some AddFailed, st)
        | Some holy_tree_content \<Rightarrow>
            (let lines = split_char 10 holy_tree_content in
             case find_insert_index U cfg lines of
               None \<Rightarrow> (None, st)
             | Some insert_index \<Rightarrow>
                 (case splice_entity cfg insert_index lines of
                    (ascii_line_new, lines') \<Rightarrow>
                      (case generate_project_from_holy_tree U Incremental
                              (st\<lparr>tree_file := Some (join [10] lines')\<rparr>) of
                         (project_result, st') \<Rightarrow>
                           (Some (Added \<lparr>entity_added = entity_name cfg,
                                         project_structure_generated = gen_success project_result,
                                         number_assigned = proposed_number cfg,
                                         ascii_line_added = take 50 ascii_line_new @ asc ''...''\<rparr>),
                            st')))))"

subsection \<open>\<^verbatim>\<open>remove_entity_from_holy_tree\<close>\<close>

text \<open>
  The inner loop, from the line that names the entity on: blank lines are passed over, a
  line whose first whitespace-separated token starts with a digit ends the loop, and every
  other line is collected.
\<close>

fun collect_lines :: "ucd \<Rightarrow> pystr list \<Rightarrow> nat \<Rightarrow> nat list" where
  "collect_lines U [] i = []"
| "collect_lines U (l # ls) i =
     (if strip l = [] then collect_lines U ls (Suc i)
      else if starts_with_digit U (first_token (strip l)) then []
      else i # collect_lines U ls (Suc i))"

definition list_pop :: "nat \<Rightarrow> 'a list \<Rightarrow> 'a list" where
  "list_pop i xs = take i xs @ drop (Suc i) xs"

definition lines_to_remove :: "ucd \<Rightarrow> pystr \<Rightarrow> pystr list \<Rightarrow> nat list option" where
  "lines_to_remove U nm lines =
     (case find_first (\<lambda>line. contains line nm \<and> (FOLDER \<in> set line \<or> 47 \<in> set line)) lines of
        None \<Rightarrow> None
      | Some line_num \<Rightarrow> Some (collect_lines U (drop line_num lines) line_num))"

definition remove_lines :: "nat list \<Rightarrow> pystr list \<Rightarrow> pystr list" where
  "remove_lines idxs lines = fold list_pop (rev (sort (remdups idxs))) lines"

text \<open>
  The archive directory is \<^verbatim>\<open>Path("ROMILLM_Project") / "archived" / entity_name\<close>. The name
  is cut at slashes and empty and single-dot segments are dropped, as \<^verbatim>\<open>pathlib\<close> does
  for a relative name without a \<^verbatim>\<open>..\<close> segment.
\<close>

definition name_segments :: "pystr \<Rightarrow> path" where
  "name_segments nm = filter (\<lambda>s. s \<noteq> [] \<and> s \<noteq> [46]) (split_char 47 nm)"

datatype cleanup_info =
    ArchivedTo pystr        \<comment> \<open>\<^verbatim>\<open>archived_to\<close>\<close>
  | DeletionStatus pystr    \<comment> \<open>\<^verbatim>\<open>deletion_status\<close>\<close>
  | Preserved               \<comment> \<open>\<^verbatim>\<open>preserved\<close> true\<close>
  | ModeOnly                \<comment> \<open>only \<^verbatim>\<open>cleanup_mode\<close>\<close>

record remove_report =
  entity_removed :: pystr
  lines_removed :: nat
  cleanup_mode :: pystr
  cleanup :: cleanup_info

datatype remove_result =
    Removed remove_report   \<comment> \<open>\<^verbatim>\<open>success\<close> true\<close>
  | NotFound pystr          \<comment> \<open>\<^verbatim>\<open>success\<close> false, with the message\<close>
  | RemoveFailed            \<comment> \<open>\<^verbatim>\<open>success\<close> false, an exception\<close>

definition remove_entity_from_holy_tree :: "ucd \<Rightarrow> pystr \<Rightarrow> pystr \<Rightarrow> server \<Rightarrow> remove_result \<times> server" where
  "remove_entity_from_holy_tree U nm mode st =
     (case tree_file st of
        None \<Rightarrow> (RemoveFailed, st)
      | Some holy_tree_content \<Rightarrow>
          (let lines = split_char 10 holy_tree_content in
           case lines_to_remove U nm lines of
             None \<Rightarrow>
               (NotFound (asc ''Entity '' @ [39] @ nm @ [39] @ asc '' not found in Holy Tree''), st)
           | Some idxs \<Rightarrow>
               (let st1 = st\<lparr>tree_file := Some (join [10] (remove_lines idxs lines))\<rparr> in
                if mode = asc ''archive'' then
                  (case mkdir_parents (fs st1) (project_root @ [asc ''archived''] @ name_segments nm) of
                     Inl err \<Rightarrow> (RemoveFailed, st1)
                   | Inr f \<Rightarrow>
                       (Removed \<lparr>entity_removed = nm, lines_removed = length idxs,
                                 cleanup_mode = mode,
                                 cleanup = ArchivedTo
                                   (path_str (project_root @ [asc ''archived''] @ name_segments nm))\<rparr>,
                        st1\<lparr>fs := f\<rparr>))
                else
                  (Removed \<lparr>entity_removed = nm, lines_removed = length idxs,
                            cleanup_mode = mode,
                            cleanup =
                              (if mode = asc ''delete'' then DeletionStatus (asc ''IMPLEMENTED'')
                               else if mode = asc ''preserve'' then Preserved
                               else ModeOnly)\<rparr>,
                   st1))))"

section \<open>Concrete inputs\<close>

text \<open>The example line of the specification.\<close>

definition example_line :: pystr where
  "example_line =
     [BRANCH_T, HBAR, HBAR] @ asc '' 4.2 '' @ [FOLDER] @
     asc '' Processing_Router/          # comment''"

text \<open>Lines of a small canonical tree: two domains, two objects, one layer.\<close>

definition line_dom4 :: pystr where
  "line_dom4 = [BRANCH_T, HBAR, HBAR] @ asc '' 4 '' @ [FOLDER] @ asc '' Routing_Engine/''"

definition line_obj42 :: pystr where
  "line_obj42 =
     [VBAR, 32, 32, 32, BRANCH_T, HBAR, HBAR] @ asc '' 4.2 '' @ [FOLDER] @
     asc '' Processing_Router/''"

definition line_lay421 :: pystr where
  "line_lay421 =
     [VBAR, 32, 32, 32, VBAR, 32, 32, 32, BRANCH_T, HBAR, HBAR] @ asc '' 4.2.1 Config/''"

definition line_obj43 :: pystr where
  "line_obj43 =
     [VBAR, 32, 32, 32, BRANCH_T, HBAR, HBAR] @ asc '' 4.3 '' @ [FOLDER] @
     asc '' Content_Filter/''"

definition line_dom5 :: pystr where
  "line_dom5 = [BRANCH_T, HBAR, HBAR] @ asc '' 5 '' @ [FOLDER] @ asc '' Template_System/''"

text \<open>An object line with a three-component number, and a line without folder icon at top level.\<close>

definition line_obj421 :: pystr where
  "line_obj421 =
     [VBAR, 32, 32, 32, BRANCH_T, HBAR, HBAR] @ asc '' 4.2.1 '' @ [FOLDER] @ asc '' Cache/''"

definition line_lay7 :: pystr where
  "line_lay7 = [BRANCH_T, HBAR, HBAR] @ asc '' 7 Notes''"

text \<open>The entities these lines parse to, in a text where they follow one another.\<close>

definition ent_dom4 :: entity where
  "ent_dom4 =
     \<lparr>name = asc ''Routing_Engine'', etype = Domain, number = asc ''4'', level = 1,
      parent_path = [], classif = empty_classification, ascii_line = line_dom4\<rparr>"

definition ent_obj42 :: entity where
  "ent_obj42 =
     \<lparr>name = asc ''Processing_Router'', etype = Object, number = asc ''4.2'', level = 2,
      parent_path = asc ''4'', classif = empty_classification, ascii_line = line_obj42\<rparr>"

definition ent_lay421 :: entity where
  "ent_lay421 =
     \<lparr>name = asc ''Config'', etype = Layer, number = asc ''4.2.1'', level = 3,
      parent_path = asc ''4/4.2'', classif = empty_classification, ascii_line = line_lay421\<rparr>"


definition ent_lay7 :: entity where
  "ent_lay7 =
     \<lparr>name = asc ''Notes'', etype = Layer, number = asc ''7'', level = 1,
      parent_path = asc ''4'', classif = empty_classification, ascii_line = line_lay7\<rparr>"

definition small_tree :: pystr where
  "small_tree = join [10] [line_dom4, line_obj42, line_lay421]"

text \<open>Eleven lines \<open>k.1 L\<close>: layers whose parent \<open>k\<close> is nowhere.\<close>

definition orphan_numbers :: "pystr list" where
  "orphan_numbers =
     map asc [''1.1'', ''2.1'', ''3.1'', ''4.1'', ''5.1'', ''6.1'', ''7.1'', ''8.1'', ''9.1'',
              ''10.1'', ''11.1'']"

definition orphan_line :: "pystr \<Rightarrow> pystr" where
  "orphan_line num = [BRANCH_T, HBAR, HBAR, 32] @ num @ asc '' L''"

definition orphan_entity :: "pystr \<Rightarrow> entity" where
  "orphan_entity num =
     \<lparr>name = asc ''L'', etype = Layer, number = num, level = 2,
      parent_path = [], classif = empty_classification, ascii_line = orphan_line num\<rparr>"

definition orphan_lines :: "pystr list" where
  "orphan_lines = map orphan_line orphan_numbers"

definition orphan_graph :: graph where
  "orphan_graph = map (\<lambda>num. (num, orphan_entity num)) orphan_numbers"

definition sample_tree :: pystr where
  "sample_tree = join [10] [line_dom4, line_obj42, line_lay421, line_obj43, line_dom5]"

text \<open>A request to add an object under a domain that the sample tree does not have.\<close>

definition unknown_domain_config :: entity_config where
  "unknown_domain_config =
     \<lparr>entity_name = asc ''Gen'', domain = asc ''Nope'', proposed_number = asc ''5.4'',
      cfg_description = None, cfg_layers = None\<rparr>"

text \<open>
  A server that has read nothing yet, over a canonical text and a file system, where the
  operating system refuses no write.
\<close>

definition fresh_server :: "pystr \<Rightarrow> filesys \<Rightarrow> server" where
  "fresh_server text f =
     \<lparr>tree_file = Some text, entities = [],
      stats = \<lparr>total_domains = 0, total_objects = 0, total_layers = 0, tree_depth = 0\<rparr>,
      fs = f, write_refused = (\<lambda>p. False)\<rparr>"

definition empty_fs :: filesys where
  "empty_fs = (\<lambda>p. None)"

text \<open>A generation root that holds a directory no entity accounts for.\<close>

definition stale_fs :: filesys where
  "stale_fs =
     (\<lambda>p. if p = [asc ''ROMILLM_Project''] \<or> p = [asc ''ROMILLM_Project'', asc ''Old'']
          then Some Dir else None)"

definition small_graph :: graph where
  "small_graph = [(asc ''4'', ent_dom4), (asc ''4.2'', ent_obj42), (asc ''4.2.1'', ent_lay421)]"

definition layer_dir :: path where
  "layer_dir =
     [asc ''ROMILLM_Project'', asc ''Routing_Engine'', asc ''Processing_Router'', asc ''Config'']"







text \<open>An incremental run over the small tree on an empty file system.\<close>

definition small_run :: "gen_result \<times> server" where
  "small_run =
     generate_project_from_holy_tree ucd_ascii Incremental (fresh_server small_tree empty_fs)"


definition flat_layer_lines :: "pystr list" where
  "flat_layer_lines = [line_dom4, line_lay7]"

section \<open>Predicates of the statements\<close>

text \<open>
  The lookups of the path resolver miss: an Object's domain number is not in the graph, or
  a Layer's domain number or object number is not.
\<close>

definition ancestor_miss :: "graph \<Rightarrow> entity \<Rightarrow> bool" where
  "ancestor_miss ents e \<longleftrightarrow>
     (etype e = Object \<and> map_of ents (first_component (number e)) = None) \<or>
     (etype e = Layer \<and>
        (map_of ents (first_component (number e)) = None \<or>
         map_of ents (join [46] (take 2 (split_char 46 (number e)))) = None))"

text \<open>The numbers above a number: its proper prefixes, shortest first.\<close>

definition ancestor_numbers :: "pystr \<Rightarrow> pystr list" where
  "ancestor_numbers n =
     map (\<lambda>k. join [46] (take k (split_char 46 n))) [1..<length (split_char 46 n)]"

text \<open>
  No missing-parent issue of the validator can be reached from the entity: none on the
  entity itself and none on an entity stored under one of the numbers above it.
\<close>

definition no_reachable_issue :: "graph \<Rightarrow> pystr \<Rightarrow> entity \<Rightarrow> bool" where
  "no_reachable_issue ents n e \<longleftrightarrow>
     \<not> missing_parent ents (n, e) \<and>
     list_all (\<lambda>a. case map_of ents a of
                     None \<Rightarrow> True
                   | Some ae \<Rightarrow> \<not> missing_parent ents (a, ae))
       (ancestor_numbers n)"

text \<open>The kind agrees with the level: Domain 1, Object 2, Layer 3.\<close>

definition kind_fits_level :: "entity \<Rightarrow> bool" where
  "kind_fits_level e \<longleftrightarrow>
     (etype e = Domain \<and> level e = 1) \<or> (etype e = Object \<and> level e = 2) \<or>
     (etype e = Layer \<and> level e = 3)"


text \<open>
  What holds of every entry the parser stores: the key is the entity's number, the level
  is the number of components of the number, the classification is empty, and the name
  has no dot.
\<close>

definition entry_ok :: "pystr \<times> entity \<Rightarrow> bool" where
  "entry_ok ne \<longleftrightarrow>
     number (snd ne) = fst ne \<and> level (snd ne) = length (split_char 46 (fst ne)) \<and>
     classif (snd ne) = empty_classification \<and> 46 \<notin> set (name (snd ne))"

text \<open>A path whose last segment is the descriptor file's name.\<close>

definition ends_readme :: "path \<Rightarrow> bool" where
  "ends_readme p \<longleftrightarrow> p \<noteq> [] \<and> last p = asc ''README.md''"

text \<open>A file system whose only files are descriptor files.\<close>

definition only_readme_files :: "filesys \<Rightarrow> bool" where
  "only_readme_files f \<longleftrightarrow> (\<forall>p. is_file f p \<longrightarrow> ends_readme p)"

text \<open>
  What a run adds to the file system, descriptor files apart, are directories. \<open>f0\<close> is
  the file system before the run.
\<close>

definition adds_directories :: "filesys \<Rightarrow> filesys \<Rightarrow> bool" where
  "adds_directories f0 f \<longleftrightarrow>
     (\<forall>p. f p \<noteq> None \<and> f0 p = None \<and> \<not> ends_readme p \<longrightarrow> f p = Some Dir)"

section \<open>Evaluation lemmas\<close>

lemmas parse_line_simps =
  parse_ascii_line_def glyph_defs strip_def is_space_def startswith_def number_match_def
  is_digit_def is_word_def replace_def strip_char_def dot_plus_end_def Let_def

lemma example_line_code_points:
  "example_line =
     [9500, 9472, 9472, 32, 52, 46, 50, 32, 128193, 32, 80, 114, 111, 99, 101, 115, 115, 105,
      110, 103, 95, 82, 111, 117, 116, 101, 114, 47, 32, 32, 32, 32, 32, 32, 32, 32, 32, 32,
      35, 32, 99, 111, 109, 109, 101, 110, 116]"
  by (simp add: example_line_def asc_def glyph_defs)

lemma example_name_code_points:
  "asc ''Processing_Router____________comment'' =
     [80, 114, 111, 99, 101, 115, 115, 105, 110, 103, 95, 82, 111, 117, 116, 101, 114,
      95, 95, 95, 95, 95, 95, 95, 95, 95, 95, 95, 95, 99, 111, 109, 109, 101, 110, 116]"
  by (simp add: asc_def)

text \<open>The code points of the literals used below.\<close>

lemma asc_code_points:
  "asc ''Routing_Engine'' =
     [82, 111, 117, 116, 105, 110, 103, 95, 69, 110, 103, 105, 110, 101]"
  "asc ''Processing_Router'' =
     [80, 114, 111, 99, 101, 115, 115, 105, 110, 103, 95, 82, 111, 117, 116, 101, 114]"
  "asc ''Config'' =
     [67, 111, 110, 102, 105, 103]"
  "asc ''Content_Filter'' =
     [67, 111, 110, 116, 101, 110, 116, 95, 70, 105, 108, 116, 101, 114]"
  "asc ''Template_System'' =
     [84, 101, 109, 112, 108, 97, 116, 101, 95, 83, 121, 115, 116, 101, 109]"
  "asc ''Cache'' =
     [67, 97, 99, 104, 101]"
  "asc ''Notes'' =
     [78, 111, 116, 101, 115]"
  "asc ''ROMILLM_Project'' =
     [82, 79, 77, 73, 76, 76, 77, 95, 80, 114, 111, 106, 101, 99, 116]"
  "asc ''README.md'' =
     [82, 69, 65, 68, 77, 69, 46, 109, 100]"
  "asc ''archived'' =
     [97, 114, 99, 104, 105, 118, 101, 100]"
  "asc ''4'' =
     [52]"
  "asc ''4.2'' =
     [52, 46, 50]"
  "asc ''4.2.1'' =
     [52, 46, 50, 46, 49]"
  "asc ''4.3'' =
     [52, 46, 51]"
  "asc ''5'' =
     [53]"
  "asc ''7'' =
     [55]"
  "asc ''preserve'' =
     [112, 114, 101, 115, 101, 114, 118, 101]"
  "asc ''archive'' =
     [97, 114, 99, 104, 105, 118, 101]"
  "asc ''delete'' =
     [100, 101, 108, 101, 116, 101]"
  "asc ''Old'' =
     [79, 108, 100]"
  by (simp_all add: asc_def)

lemma line_dom4_code_points:
  "line_dom4 =
     [9500, 9472, 9472, 32, 52, 32, 128193, 32, 82, 111, 117, 116, 105, 110, 103, 95, 69,
      110, 103, 105, 110, 101, 47]"
  by (simp add: line_dom4_def asc_def glyph_defs)

lemma line_obj42_code_points:
  "line_obj42 =
     [9474, 32, 32, 32, 9500, 9472, 9472, 32, 52, 46, 50, 32, 128193, 32, 80, 114, 111, 99,
      101, 115, 115, 105, 110, 103, 95, 82, 111, 117, 116, 101, 114, 47]"
  by (simp add: line_obj42_def asc_def glyph_defs)

lemma line_lay421_code_points:
  "line_lay421 =
     [9474, 32, 32, 32, 9474, 32, 32, 32, 9500, 9472, 9472, 32, 52, 46, 50, 46, 49, 32, 67,
      111, 110, 102, 105, 103, 47]"
  by (simp add: line_lay421_def asc_def glyph_defs)

lemma line_obj43_code_points:
  "line_obj43 =
     [9474, 32, 32, 32, 9500, 9472, 9472, 32, 52, 46, 51, 32, 128193, 32, 67, 111, 110,
      116, 101, 110, 116, 95, 70, 105, 108, 116, 101, 114, 47]"
  by (simp add: line_obj43_def asc_def glyph_defs)

lemma line_dom5_code_points:
  "line_dom5 =
     [9500, 9472, 9472, 32, 53, 32, 128193, 32, 84, 101, 109, 112, 108, 97, 116, 101, 95,
      83, 121, 115, 116, 101, 109, 47]"
  by (simp add: line_dom5_def asc_def glyph_defs)

lemma line_obj421_code_points:
  "line_obj421 =
     [9474, 32, 32, 32, 9500, 9472, 9472, 32, 52, 46, 50, 46, 49, 32, 128193, 32, 67, 97,
      99, 104, 101, 47]"
  by (simp add: line_obj421_def asc_def glyph_defs)

lemma line_lay7_code_points:
  "line_lay7 =
     [9500, 9472, 9472, 32, 55, 32, 78, 111, 116, 101, 115]"
  by (simp add: line_lay7_def asc_def glyph_defs)

lemmas line_code_points =
  line_dom4_code_points line_obj42_code_points line_lay421_code_points line_obj43_code_points
  line_dom5_code_points line_obj421_code_points line_lay7_code_points

lemma parse_line_dom4:
  "parse_ascii_line U line_dom4 cp =
     Some \<lparr>name = asc ''Routing_Engine'', etype = Domain, number = asc ''4'', level = 1,
           parent_path = join [47] (filter (\<lambda>p. p \<noteq> []) cp),
           classif = empty_classification, ascii_line = line_dom4\<rparr>"
  unfolding line_dom4_code_points asc_code_points
  by (simp add: parse_line_simps)

lemma strip_line_dom4: "strip line_dom4 \<noteq> [] \<and> \<not> startswith (strip line_dom4) [35]"
  unfolding line_dom4_code_points by (simp add: strip_def is_space_def startswith_def)

lemma parse_line_obj42:
  "parse_ascii_line U line_obj42 cp =
     Some \<lparr>name = asc ''Processing_Router'', etype = Object, number = asc ''4.2'', level = 2,
           parent_path = join [47] (filter (\<lambda>p. p \<noteq> []) cp),
           classif = empty_classification, ascii_line = line_obj42\<rparr>"
  unfolding line_obj42_code_points asc_code_points
  by (simp add: parse_line_simps)

lemma strip_line_obj42: "strip line_obj42 \<noteq> [] \<and> \<not> startswith (strip line_obj42) [35]"
  unfolding line_obj42_code_points by (simp add: strip_def is_space_def startswith_def)

lemma parse_line_lay421:
  "parse_ascii_line U line_lay421 cp =
     Some \<lparr>name = asc ''Config'', etype = Layer, number = asc ''4.2.1'', level = 3,
           parent_path = join [47] (filter (\<lambda>p. p \<noteq> []) cp),
           classif = empty_classification, ascii_line = line_lay421\<rparr>"
  unfolding line_lay421_code_points asc_code_points
  by (simp add: parse_line_simps)

lemma strip_line_lay421: "strip line_lay421 \<noteq> [] \<and> \<not> startswith (strip line_lay421) [35]"
  unfolding line_lay421_code_points by (simp add: strip_def is_space_def startswith_def)

lemma parse_line_obj43:
  "parse_ascii_line U line_obj43 cp =
     Some \<lparr>name = asc ''Content_Filter'', etype = Object, number = asc ''4.3'', level = 2,
           parent_path = join [47] (filter (\<lambda>p. p \<noteq> []) cp),
           classif = empty_classification, ascii_line = line_obj43\<rparr>"
  unfolding line_obj43_code_points asc_code_points
  by (simp add: parse_line_simps)

lemma strip_line_obj43: "strip line_obj43 \<noteq> [] \<and> \<not> startswith (strip line_obj43) [35]"
  unfolding line_obj43_code_points by (simp add: strip_def is_space_def startswith_def)





lemma parse_line_lay7:
  "parse_ascii_line U line_lay7 cp =
     Some \<lparr>name = asc ''Notes'', etype = Layer, number = asc ''7'', level = 1,
           parent_path = join [47] (filter (\<lambda>p. p \<noteq> []) cp),
           classif = empty_classification, ascii_line = line_lay7\<rparr>"
  unfolding line_lay7_code_points asc_code_points
  by (simp add: parse_line_simps)

lemma strip_line_lay7: "strip line_lay7 \<noteq> [] \<and> \<not> startswith (strip line_lay7) [35]"
  unfolding line_lay7_code_points by (simp add: strip_def is_space_def startswith_def)

section \<open>Splitting and joining\<close>

lemma split_char_nonempty: "split_char d s \<noteq> []"
  by (induction s) (auto split: list.splits)

lemma split_char_no_sep: "x \<in> set (split_char d s) \<Longrightarrow> d \<notin> set x"
proof (induction s arbitrary: x)
  case Nil
  then show ?case by simp
next
  case (Cons c s)
  show ?case
  proof (cases "c = d")
    case True
    with Cons show ?thesis by auto
  next
    case False
    obtain w ws where ws: "split_char d s = w # ws"
      using split_char_nonempty [of d s] by (cases "split_char d s") auto
    with Cons False show ?thesis by auto
  qed
qed

lemma split_char_plain: "d \<notin> set s \<Longrightarrow> split_char d s = [s]"
  by (induction s) auto

lemma split_char_append:
  "d \<notin> set a \<Longrightarrow> split_char d (a @ d # r) = a # split_char d r"
  by (induction a) auto

lemma split_char_join:
  "xs \<noteq> [] \<Longrightarrow> (\<And>x. x \<in> set xs \<Longrightarrow> d \<notin> set x) \<Longrightarrow> split_char d (join [d] xs) = xs"
proof (induction xs)
  case Nil
  then show ?case by simp
next
  case (Cons x xs)
  have x: "d \<notin> set x" using Cons.prems by simp
  show ?case
  proof (cases xs)
    case Nil
    with x show ?thesis by (simp add: split_char_plain)
  next
    case (Cons y ys)
    then have "split_char d (join [d] xs) = xs"
      using Cons.IH Cons.prems by simp
    with Cons x show ?thesis by (simp add: split_char_append)
  qed
qed

lemma first_component_split:
  "split_char 46 n = a # r \<Longrightarrow> first_component n = a"
  by (simp add: first_component_def)

lemma startswith_prefix: "startswith s (p @ q) \<Longrightarrow> startswith s p"
proof -
  assume "startswith s (p @ q)"
  then have "take (length p + length q) s = p @ q" by (simp add: startswith_def)
  then have "take (length p) (take (length p + length q) s) = take (length p) (p @ q)" by simp
  then show ?thesis by (simp add: startswith_def min_def)
qed

lemma contains_prefix: "contains s (p @ q) \<Longrightarrow> contains s p"
proof (induction s)
  case Nil
  then show ?case by simp
next
  case (Cons c s)
  then show ?case using startswith_prefix [of "c # s" p q] by auto
qed

lemma find_first_None: "(\<And>x. x \<in> set xs \<Longrightarrow> \<not> P x) \<Longrightarrow> find_first P xs = None"
  by (induction xs) auto

section \<open>What every parsed graph satisfies\<close>

lemma set_strip_char: "set (strip_char d s) \<subseteq> set s"
proof
  fix x assume "x \<in> set (strip_char d s)"
  then have "x \<in> set (dropWhile (\<lambda>c. c = d) (rev (dropWhile (\<lambda>c. c = d) s)))"
    by (simp add: strip_char_def)
  then have "x \<in> set (rev (dropWhile (\<lambda>c. c = d) s))" by (rule set_dropWhileD)
  then have "x \<in> set (dropWhile (\<lambda>c. c = d) s)" by simp
  then show "x \<in> set s" by (rule set_dropWhileD)
qed

lemma parse_ascii_line_fields:
  "parse_ascii_line U l cp = Some e \<Longrightarrow>
     level e = length (split_char 46 (number e)) \<and> classif e = empty_classification"
  by (auto simp: parse_ascii_line_def Let_def split: if_splits option.splits)

lemma parse_ascii_line_name:
  assumes "parse_ascii_line U l cp = Some e"
  shows "46 \<notin> set (name e)"
proof -
  from assms obtain s where "name e = strip_char 95 (map (\<lambda>c. if is_word U c then c else 95) s)"
    by (auto simp: parse_ascii_line_def Let_def split: if_splits option.splits)
  then have "set (name e) \<subseteq> set (map (\<lambda>c. if is_word U c then c else 95) s)"
    by (simp only: set_strip_char)
  moreover have "46 \<notin> set (map (\<lambda>c. if is_word U c then c else 95) s)"
    by (auto simp: is_word_def)
  ultimately show ?thesis by blast
qed

lemma set_update_subset: "set (AList.update k v al) \<subseteq> insert (k, v) (set al)"
  by (induction al) auto

lemma parse_lines_entries:
  "list_all entry_ok ents \<Longrightarrow> list_all entry_ok (parse_lines U ls ents cp)"
proof (induction ls arbitrary: ents cp)
  case Nil
  then show ?case by simp
next
  case (Cons l ls)
  show ?case
  proof (cases "parse_ascii_line U l cp")
    case None
    with Cons.IH Cons.prems show ?thesis by simp
  next
    case (Some e)
    have "entry_ok (number e, e)"
      using parse_ascii_line_fields [OF Some] parse_ascii_line_name [OF Some]
      by (simp add: entry_ok_def)
    then have "list_all entry_ok (AList.update (number e) e ents)"
      using Cons.prems set_update_subset [of "number e" e ents]
      by (auto simp: list_all_iff)
    with Cons.IH Cons.prems Some show ?thesis by simp
  qed
qed

lemma parsed_entry:
  assumes "map_of (parse_lines U ls [] []) n = Some e"
  shows "number e = n" and "level e = length (split_char 46 n)"
    and "classif e = empty_classification" and "46 \<notin> set (name e)"
proof -
  have "list_all entry_ok (parse_lines U ls [] [])"
    by (rule parse_lines_entries) simp
  moreover have "(n, e) \<in> set (parse_lines U ls [] [])"
    using assms by (rule map_of_SomeD)
  ultimately have "entry_ok (n, e)" by (auto simp: list_all_iff)
  then show "number e = n" and "level e = length (split_char 46 n)"
    and "classif e = empty_classification" and "46 \<notin> set (name e)"
    by (simp_all add: entry_ok_def)
qed

section \<open>The file system operations\<close>

lemma in_path_prefixes:
  "q \<in> set (path_prefixes p) \<longleftrightarrow> (\<exists>k. 1 \<le> k \<and> k \<le> length p \<and> q = take k p)"
  by (auto simp: path_prefixes_def)

lemma self_in_prefixes: "p \<noteq> [] \<Longrightarrow> p \<in> set (path_prefixes p)"
  unfolding in_path_prefixes by (rule exI [of _ "length p"]) (cases p; simp)

lemma butlast_in_prefixes:
  assumes "q \<in> set (path_prefixes p)" and "butlast q \<noteq> []"
  shows "butlast q \<in> set (path_prefixes p)"
proof -
  obtain k where k: "1 \<le> k" "k \<le> length p" "q = take k p"
    using assms(1) unfolding in_path_prefixes by blast
  then have b: "butlast q = take (k - 1) p"
    by (simp add: butlast_take)
  with assms(2) have "1 \<le> k - 1" by (cases "k - 1") auto
  with k b show ?thesis unfolding in_path_prefixes by (intro exI [of _ "k - 1"]) simp
qed

lemma longer_not_prefix: "p @ [x] \<notin> set (path_prefixes p)"
proof
  assume "p @ [x] \<in> set (path_prefixes p)"
  then obtain k where "k \<le> length p" "p @ [x] = take k p"
    unfolding in_path_prefixes by blast
  then have "length (p @ [x]) \<le> length p"
    by (metis length_take min.cobounded1)
  then show False by simp
qed

lemma mkdir_parents_result:
  assumes "mkdir_parents f p = Inr f'"
  shows "f' = (\<lambda>q. if q \<in> set (path_prefixes p) then Some Dir else f q)"
    and "\<And>q. q \<in> set (path_prefixes p) \<Longrightarrow> \<not> is_file f q"
  using assms by (auto simp: mkdir_parents_def split: if_splits)

lemma mkdir_parents_fails: "mkdir_parents f p = Inl err \<Longrightarrow> \<exists>q \<in> set (path_prefixes p). is_file f q"
  by (auto simp: mkdir_parents_def split: if_splits)

lemma mkdir_parents_mono:
  "mkdir_parents f p = Inr f' \<Longrightarrow> path_exists f q \<Longrightarrow> path_exists f' q"
  by (auto simp: mkdir_parents_def path_exists_def split: if_splits)

lemma mkdir_parents_wf:
  assumes "wf_fs f" and "mkdir_parents f p = Inr f'"
  shows "wf_fs f'"
  unfolding wf_fs_def
proof (intro allI impI)
  fix q assume q: "f' q \<noteq> None \<and> butlast q \<noteq> []"
  note f' = mkdir_parents_result(1) [OF assms(2)]
  show "f' (butlast q) = Some Dir"
  proof (cases "q \<in> set (path_prefixes p)")
    case True
    with q have "butlast q \<in> set (path_prefixes p)" by (simp add: butlast_in_prefixes)
    then show ?thesis by (simp add: f')
  next
    case False
    with q have "f q \<noteq> None" by (simp add: f')
    with assms(1) q have "f (butlast q) = Some Dir" by (simp add: wf_fs_def)
    then show ?thesis by (simp add: f')
  qed
qed

lemma write_text_mono:
  "write_text W f p c = Inr f' \<Longrightarrow> path_exists f q \<Longrightarrow> path_exists f' q"
  by (auto simp: write_text_def path_exists_def split: if_splits)

lemma write_text_wf:
  assumes "wf_fs f" and "write_text W f p c = Inr f'"
  shows "wf_fs f'"
  unfolding wf_fs_def
proof (intro allI impI)
  fix q assume q: "f' q \<noteq> None \<and> butlast q \<noteq> []"
  from assms(2) have f': "f' = f(p := Some (File c))" and nd: "f p \<noteq> Some Dir"
    and par: "butlast p \<noteq> [] \<Longrightarrow> f (butlast p) = Some Dir"
    by (auto simp: write_text_def split: if_splits)
  show "f' (butlast q) = Some Dir"
  proof (cases "q = p")
    case True
    with q par have "f (butlast p) = Some Dir" by simp
    moreover from this nd have "butlast p \<noteq> p" by auto
    ultimately show ?thesis using True by (simp add: f')
  next
    case False
    with q have "f q \<noteq> None" by (simp add: f')
    with assms(1) q have b: "f (butlast q) = Some Dir" by (simp add: wf_fs_def)
    with nd have "butlast q \<noteq> p" by auto
    with b show ?thesis by (simp add: f')
  qed
qed

text \<open>
  In a directory that was just made there is nothing yet: the file can be written, unless
  the operating system refuses.
\<close>

lemma write_after_mkdir:
  assumes "wf_fs f" and "\<not> path_exists f p" and "p \<noteq> []" and "mkdir_parents f p = Inr f1"
    and "\<not> W (p @ [x])"
  shows "\<exists>f2. write_text W f1 (p @ [x]) c = Inr f2"
proof -
  note f1 = mkdir_parents_result(1) [OF assms(4)]
  have "f (p @ [x]) = None"
  proof (rule ccontr)
    assume "f (p @ [x]) \<noteq> None"
    with assms(1,3) have "f p = Some Dir"
      unfolding wf_fs_def by (metis butlast_snoc)
    with assms(2) show False by (simp add: path_exists_def)
  qed
  then have "f1 (p @ [x]) = None" by (simp add: f1 longer_not_prefix)
  moreover have "f1 p = Some Dir" using assms(3) by (simp add: f1 self_in_prefixes)
  ultimately show ?thesis using assms(5) by (simp add: write_text_def)
qed

section \<open>One round of the generation loop\<close>

lemma construct_directory_path_nonempty: "construct_directory_path ents e \<noteq> []"
  by (simp add: construct_directory_path_def project_root_def)

lemma generate_step_mono:
  assumes "generate_step W m ents e g = Inr g'" and "path_exists (gp_fs g) q"
  shows "path_exists (gp_fs g') q"
  using assms
  by (auto simp: generate_step_def generate_basic_files_def Let_def
      split: if_splits sum.splits dest: mkdir_parents_mono write_text_mono)

lemma generate_step_exists:
  assumes "generate_step W m ents e g = Inr g'"
  shows "path_exists (gp_fs g') (construct_directory_path ents e)"
proof (cases "m = Full \<or> \<not> path_exists (gp_fs g) (construct_directory_path ents e)")
  case False
  with assms show ?thesis by (simp add: generate_step_def Let_def)
next
  case True
  let ?p = "construct_directory_path ents e"
  from True assms obtain f1 where f1: "mkdir_parents (gp_fs g) ?p = Inr f1"
    by (auto simp: generate_step_def Let_def split: sum.splits)
  have "f1 ?p = Some Dir"
    by (simp add: mkdir_parents_result(1) [OF f1] self_in_prefixes construct_directory_path_nonempty)
  then have e1: "path_exists f1 ?p" by (simp add: path_exists_def)
  from True assms f1 show ?thesis
    using e1
    by (auto simp: generate_step_def generate_basic_files_def Let_def
        split: if_splits sum.splits dest: write_text_mono)
qed

lemma generate_step_cases:
  assumes "generate_step W m ents e g = Inr g'"
  shows "g' = g \<or>
     (\<exists>f1. mkdir_parents (gp_fs g) (construct_directory_path ents e) = Inr f1 \<and>
        (gp_fs g' = f1 \<or>
         (\<exists>f2. write_text W f1 (construct_directory_path ents e @ [asc ''README.md''])
                 (readme_content e) = Inr f2 \<and> gp_fs g' = f2)))"
  using assms
  by (auto simp: generate_step_def generate_basic_files_def Let_def
      split: if_splits sum.splits)

lemma generate_step_wf:
  assumes "wf_fs (gp_fs g)" and "generate_step W m ents e g = Inr g'"
  shows "wf_fs (gp_fs g')"
  using generate_step_cases [OF assms(2)] assms(1)
  by (metis mkdir_parents_wf write_text_wf)

text \<open>Where the directory is there already, an incremental round changes nothing.\<close>

lemma generate_step_skip:
  "path_exists (gp_fs g) (construct_directory_path ents e) \<Longrightarrow>
     generate_step W Incremental ents e g = Inr g"
  by (simp add: generate_step_def Let_def)

section \<open>The generation loop\<close>

lemma generate_loop_mono:
  "generate_loop W m ents es g = Inr g' \<Longrightarrow> path_exists (gp_fs g) q \<Longrightarrow> path_exists (gp_fs g') q"
proof (induction es arbitrary: g)
  case Nil
  then show ?case by simp
next
  case (Cons ne es)
  obtain n e where ne: "ne = (n, e)" by (cases ne)
  from Cons.prems(1) obtain g1 where s: "generate_step W m ents e g = Inr g1"
    and l: "generate_loop W m ents es g1 = Inr g'"
    by (auto simp: ne split: sum.splits)
  from generate_step_mono [OF s Cons.prems(2)] Cons.IH [OF l] show ?case by simp
qed

lemma generate_loop_exists:
  "generate_loop W m ents es g = Inr g' \<Longrightarrow> (n, e) \<in> set es \<Longrightarrow>
     path_exists (gp_fs g') (construct_directory_path ents e)"
proof (induction es arbitrary: g)
  case Nil
  then show ?case by simp
next
  case (Cons ne es)
  obtain n1 e1 where ne: "ne = (n1, e1)" by (cases ne)
  from Cons.prems(1) obtain g1 where s: "generate_step W m ents e1 g = Inr g1"
    and l: "generate_loop W m ents es g1 = Inr g'"
    by (auto simp: ne split: sum.splits)
  show ?case
  proof (cases "(n, e) \<in> set es")
    case True
    with Cons.IH [OF l] show ?thesis by simp
  next
    case False
    with Cons.prems(2) ne have "e = e1" by simp
    with generate_step_exists [OF s] generate_loop_mono [OF l] show ?thesis by simp
  qed
qed


section \<open>The line parser on the example line\<close>

text \<open>
  C1. The parser turns the example line into an Object with number \<open>4.2\<close> and level 2,
  but the name is not \<open>Processing_Router\<close>: every character outside the word class
  becomes an underscore, runs are not collapsed, and the text of the trailing comment stays
  in the name, which is \<open>Processing_Router____________comment\<close>.
\<close>

theorem example_line_name_keeps_comment:
  "parse_ascii_line ucd_ascii example_line [] =
     Some \<lparr>name = asc ''Processing_Router____________comment'', etype = Object,
           number = asc ''4.2'', level = 2, parent_path = [],
           classif = empty_classification, ascii_line = example_line\<rparr>"
  unfolding example_line_code_points example_name_code_points
  by (simp add: parse_line_simps asc_def)

section \<open>Runs of the generator\<close>

lemma parse_holy_tree_unreadable: "tree_file st = None \<Longrightarrow> parse_holy_tree U st = (None, st)"
  by (simp add: parse_holy_tree_def)

lemma parse_holy_tree_readable:
  "tree_file st = Some c \<Longrightarrow>
     \<exists>r. parse_holy_tree U st =
       (Some r, st\<lparr>entities := parse_lines U (split_char 10 c) [] [],
                   stats := update_statistics (parse_lines U (split_char 10 c) [] [])\<rparr>)"
  by (simp add: parse_holy_tree_def Let_def)

lemma generate_unreadable:
  "tree_file st = None \<Longrightarrow> m \<noteq> Validate \<Longrightarrow>
     generate_project_from_holy_tree U m st = (ParseFailed, st)"
  by (simp add: generate_project_from_holy_tree_def parse_holy_tree_unreadable)

text \<open>A run that is not a validation: the loop over the freshly parsed graph.\<close>

lemma generate_readable:
  assumes "tree_file st = Some c" and "m \<noteq> Validate"
    and "ents = parse_lines U (split_char 10 c) [] []"
    and "g0 = \<lparr>gp_fs = fs st, created_directories = [], generated_files = []\<rparr>"
  shows "generate_project_from_holy_tree U m st =
     (case generate_loop (write_refused st) m ents ents g0 of
        Inl f \<Rightarrow> (GenerationError, st\<lparr>entities := ents, stats := update_statistics ents, fs := f\<rparr>)
      | Inr g \<Rightarrow>
          (Generated
             \<lparr>gen_create_mode = m,
              directories_created = length (created_directories g),
              files_generated = length (generated_files g),
              total_project_entities =
                length (filter (\<lambda>(n, e). project_structure (classif e) = Some True) ents),
              directories_list = created_directories g,
              files_list = generated_files g\<rparr>,
           st\<lparr>entities := ents, stats := update_statistics ents, fs := gp_fs g\<rparr>))"
proof -
  obtain r where "parse_holy_tree U st = (Some r, st\<lparr>entities := ents, stats := update_statistics ents\<rparr>)"
    using parse_holy_tree_readable [OF assms(1), of U] assms(3) by auto
  then show ?thesis
    using assms(2) by (simp add: generate_project_from_holy_tree_def assms(4) split: sum.splits)
qed

section \<open>Where the generator puts directories\<close>

lemma readme_has_dot: "46 \<in> set (asc ''README.md'')"
  by (simp add: asc_def)

lemma root_not_readme: "asc ''ROMILLM_Project'' \<noteq> asc ''README.md''"
  by (simp add: asc_def)

lemma path_parts_shapes:
  "path_parts ents e = [] \<or> path_parts ents e = [name e] \<or>
   (\<exists>k d. map_of ents k = Some d \<and> path_parts ents e = [name d, name e]) \<or>
   (\<exists>k d j ob. map_of ents k = Some d \<and> map_of ents j = Some ob \<and>
      path_parts ents e = [name d, name ob, name e])"
proof (cases "etype e")
  case Domain
  then show ?thesis by (simp add: path_parts_def)
next
  case Object
  show ?thesis
  proof (cases "map_of ents (first_component (number e))")
    case None
    with Object have "path_parts ents e = []"
      by (simp add: path_parts_def get_entity_by_number_def)
    then show ?thesis by simp
  next
    case (Some d)
    with Object have "path_parts ents e = [name d, name e]"
      by (simp add: path_parts_def get_entity_by_number_def)
    with Some show ?thesis by blast
  qed
next
  case Layer
  show ?thesis
  proof (cases "map_of ents (first_component (number e))")
    case None
    with Layer have "path_parts ents e = []"
      by (simp add: path_parts_def get_entity_by_number_def Let_def)
    then show ?thesis by simp
  next
    case d: (Some d)
    show ?thesis
    proof (cases "map_of ents (join [46] (take 2 (split_char 46 (number e))))")
      case None
      with Layer d have "path_parts ents e = []"
        by (simp add: path_parts_def get_entity_by_number_def Let_def)
      then show ?thesis by simp
    next
      case (Some ob)
      with Layer d have "path_parts ents e = [] \<or> path_parts ents e = [name d, name ob, name e]"
        by (simp add: path_parts_def get_entity_by_number_def Let_def)
      with d Some show ?thesis by blast
    qed
  qed
qed

lemma path_parts_segments:
  assumes "s \<in> set (path_parts ents e)"
  shows "s = name e \<or> (\<exists>k d. map_of ents k = Some d \<and> s = name d)"
  using assms path_parts_shapes [of ents e] by auto

lemma path_parts_last:
  "path_parts ents e \<noteq> [] \<Longrightarrow> last (path_parts ents e) = name e"
  using path_parts_shapes [of ents e] by auto

lemma directory_path_no_readme_segment:
  assumes "list_all entry_ok ents" and "46 \<notin> set (name e)"
  shows "asc ''README.md'' \<notin> set (construct_directory_path ents e)"
proof
  assume "asc ''README.md'' \<in> set (construct_directory_path ents e)"
  then have "asc ''README.md'' \<in> set (path_parts ents e)"
    using root_not_readme by (auto simp: construct_directory_path_def project_root_def)
  then consider "asc ''README.md'' = name e"
    | k d where "map_of ents k = Some d" "asc ''README.md'' = name d"
    using path_parts_segments by blast
  then show False
  proof cases
    case 1
    with assms(2) readme_has_dot show False by simp
  next
    case 2
    then have "(k, d) \<in> set ents" by (simp add: map_of_SomeD)
    with assms(1) have "entry_ok (k, d)" by (auto simp: list_all_iff)
    with 2 readme_has_dot show False by (simp add: entry_ok_def)
  qed
qed

lemma directory_path_not_readme:
  assumes "46 \<notin> set (name e)"
  shows "\<not> ends_readme (construct_directory_path ents e)"
proof (cases "path_parts ents e = []")
  case True
  then show ?thesis
    using root_not_readme by (simp add: ends_readme_def construct_directory_path_def project_root_def)
next
  case False
  then have "last (construct_directory_path ents e) = name e"
    by (simp add: construct_directory_path_def path_parts_last)
  with assms readme_has_dot show ?thesis by (auto simp: ends_readme_def)
qed

lemma adds_directories_mkdir:
  assumes "adds_directories f0 f" and "mkdir_parents f p = Inr f1"
  shows "adds_directories f0 f1"
  unfolding adds_directories_def
proof (intro allI impI)
  fix q assume q: "f1 q \<noteq> None \<and> f0 q = None \<and> \<not> ends_readme q"
  note f1 = mkdir_parents_result(1) [OF assms(2)]
  show "f1 q = Some Dir"
  proof (cases "q \<in> set (path_prefixes p)")
    case True
    then show ?thesis by (simp add: f1)
  next
    case False
    with q have "f q \<noteq> None \<and> f0 q = None \<and> \<not> ends_readme q" by (simp add: f1)
    with assms(1) have "f q = Some Dir" unfolding adds_directories_def by blast
    with False show ?thesis by (simp add: f1)
  qed
qed

lemma adds_directories_write:
  assumes "adds_directories f0 f" and "write_text W f (p @ [asc ''README.md'']) c = Inr f1"
  shows "adds_directories f0 f1"
  unfolding adds_directories_def
proof (intro allI impI)
  fix q assume q: "f1 q \<noteq> None \<and> f0 q = None \<and> \<not> ends_readme q"
  from assms(2) have f1: "f1 = f(p @ [asc ''README.md''] := Some (File c))"
    by (auto simp: write_text_def split: if_splits)
  from q have ne: "q \<noteq> p @ [asc ''README.md'']" by (auto simp: ends_readme_def)
  with q have "f q \<noteq> None \<and> f0 q = None \<and> \<not> ends_readme q" by (simp add: f1)
  with assms(1) have "f q = Some Dir" unfolding adds_directories_def by blast
  with ne show "f1 q = Some Dir" by (simp add: f1)
qed

lemma adds_directories_step:
  assumes "adds_directories f0 (gp_fs g)" and "generate_step W m ents e g = Inr g'"
  shows "adds_directories f0 (gp_fs g')"
  using generate_step_cases [OF assms(2)] assms(1)
  by (metis adds_directories_mkdir adds_directories_write)

lemma adds_directories_loop:
  "adds_directories f0 (gp_fs g) \<Longrightarrow> generate_loop W m ents es g = Inr g' \<Longrightarrow>
     adds_directories f0 (gp_fs g')"
proof (induction es arbitrary: g)
  case Nil
  then show ?case by simp
next
  case (Cons ne es)
  obtain n e where ne: "ne = (n, e)" by (cases ne)
  from Cons.prems(2) obtain g1 where s: "generate_step W m ents e g = Inr g1"
    and l: "generate_loop W m ents es g1 = Inr g'"
    by (auto simp: ne split: sum.splits)
  from Cons.IH [OF adds_directories_step [OF Cons.prems(1) s] l] show ?case .
qed

text \<open>
  After a run that reports success, the resolved path of every entity of the graph exists,
  and where nothing stood before the run it is a directory.
\<close>

lemma entity_directory_after_run:
  assumes "generate_project_from_holy_tree U m st = (Generated rep, st')"
    and "(n, e) \<in> set (entities st')"
  shows "classif e = empty_classification \<and>
     path_exists (fs st') (construct_directory_path (entities st') e) \<and>
     (\<not> path_exists (fs st) (construct_directory_path (entities st') e) \<longrightarrow>
        fs st' (construct_directory_path (entities st') e) = Some Dir)"
proof -
  from assms(1) have m: "m \<noteq> Validate"
    by (auto simp: generate_project_from_holy_tree_def split: prod.splits)
  from assms(1) m obtain c where c: "tree_file st = Some c"
    by (cases "tree_file st") (auto simp: generate_unreadable)
  define ents where "ents = parse_lines U (split_char 10 c) [] []"
  define g0 where "g0 = \<lparr>gp_fs = fs st, created_directories = [], generated_files = []\<rparr>"
  note run = generate_readable [OF c m ents_def g0_def]
  from run assms(1) obtain g where g: "generate_loop (write_refused st) m ents ents g0 = Inr g"
    and st': "entities st' = ents" "fs st' = gp_fs g"
    by (auto split: sum.splits)
  have ok: "list_all entry_ok ents"
    unfolding ents_def by (rule parse_lines_entries) simp
  with assms(2) st' have e: "entry_ok (n, e)" by (auto simp: list_all_iff)
  let ?p = "construct_directory_path ents e"
  have ex: "path_exists (gp_fs g) ?p"
    using generate_loop_exists [OF g] assms(2) st' by simp
  have "adds_directories (fs st) (gp_fs g0)"
    by (auto simp: adds_directories_def g0_def)
  then have "adds_directories (fs st) (gp_fs g)"
    using g by (rule adds_directories_loop)
  moreover have "\<not> ends_readme ?p"
    using e by (simp add: directory_path_not_readme entry_ok_def)
  ultimately have "\<not> path_exists (fs st) ?p \<longrightarrow> gp_fs g ?p = Some Dir"
    using ex by (simp add: adds_directories_def path_exists_def)
  with e ex st' show ?thesis by (simp add: entry_ok_def)
qed

section \<open>When an incremental run succeeds\<close>

lemma last_of_prefix:
  assumes "q \<in> set (path_prefixes p)"
  shows "last q \<in> set p"
proof -
  obtain k where k: "1 \<le> k" "k \<le> length p" "q = take k p"
    using assms unfolding in_path_prefixes by blast
  then have "q \<noteq> []" by (cases p) auto
  then have "last q \<in> set q" by simp
  with k show ?thesis by (auto dest: in_set_takeD)
qed

lemma mkdir_parents_succeeds:
  assumes "only_readme_files f" and "asc ''README.md'' \<notin> set p"
  shows "\<exists>f1. mkdir_parents f p = Inr f1"
proof -
  have "\<not> is_file f q" if "q \<in> set (path_prefixes p)" for q
  proof
    assume "is_file f q"
    with assms(1) have "last q = asc ''README.md''"
      by (simp add: only_readme_files_def ends_readme_def)
    with last_of_prefix [OF that] assms(2) show False by simp
  qed
  then show ?thesis by (auto simp: mkdir_parents_def)
qed

lemma only_readme_files_mkdir:
  assumes "only_readme_files f" and "mkdir_parents f p = Inr f1"
  shows "only_readme_files f1"
  unfolding only_readme_files_def
proof (intro allI impI)
  fix q assume "is_file f1 q"
  then have "is_file f q"
    by (auto simp: mkdir_parents_result(1) [OF assms(2)] is_file_def split: if_splits)
  with assms(1) show "ends_readme q" by (simp add: only_readme_files_def)
qed

lemma only_readme_files_write:
  assumes "only_readme_files f" and "write_text W f (p @ [asc ''README.md'']) c = Inr f1"
  shows "only_readme_files f1"
  unfolding only_readme_files_def
proof (intro allI impI)
  fix q assume q: "is_file f1 q"
  from assms(2) have f1: "f1 = f(p @ [asc ''README.md''] := Some (File c))"
    by (auto simp: write_text_def split: if_splits)
  show "ends_readme q"
  proof (cases "q = p @ [asc ''README.md'']")
    case True
    then show ?thesis by (simp add: ends_readme_def)
  next
    case False
    with q have "is_file f q" by (simp add: f1 is_file_def)
    with assms(1) show ?thesis by (simp add: only_readme_files_def)
  qed
qed

lemma only_readme_files_step:
  assumes "only_readme_files (gp_fs g)" and "generate_step W m ents e g = Inr g'"
  shows "only_readme_files (gp_fs g')"
  using generate_step_cases [OF assms(2)] assms(1)
  by (metis only_readme_files_mkdir only_readme_files_write)

lemma generate_step_succeeds:
  assumes "wf_fs (gp_fs g)" and "only_readme_files (gp_fs g)"
    and "asc ''README.md'' \<notin> set (construct_directory_path ents e)"
    and "\<forall>p. \<not> W p"
  shows "\<exists>g'. generate_step W Incremental ents e g = Inr g'"
proof (cases "path_exists (gp_fs g) (construct_directory_path ents e)")
  case True
  then show ?thesis by (simp add: generate_step_skip)
next
  case False
  obtain f1 where f1: "mkdir_parents (gp_fs g) (construct_directory_path ents e) = Inr f1"
    using mkdir_parents_succeeds [OF assms(2,3)] by blast
  obtain f2 where "write_text W f1 (construct_directory_path ents e @ [asc ''README.md''])
      (readme_content e) = Inr f2"
    using write_after_mkdir [OF assms(1) False construct_directory_path_nonempty f1] assms(4)
    by blast
  with f1 False show ?thesis
    by (simp add: generate_step_def generate_basic_files_def Let_def)
qed

lemma generate_loop_succeeds:
  "wf_fs (gp_fs g) \<Longrightarrow> only_readme_files (gp_fs g) \<Longrightarrow>
     \<forall>ne \<in> set es. asc ''README.md'' \<notin> set (construct_directory_path ents (snd ne)) \<Longrightarrow>
     \<forall>p. \<not> W p \<Longrightarrow>
     \<exists>g'. generate_loop W Incremental ents es g = Inr g'"
proof (induction es arbitrary: g)
  case Nil
  then show ?case by simp
next
  case (Cons ne es)
  obtain n e where ne: "ne = (n, e)" by (cases ne)
  have "asc ''README.md'' \<notin> set (construct_directory_path ents e)"
    using Cons.prems(3) ne by simp
  from generate_step_succeeds [OF Cons.prems(1,2) this Cons.prems(4)]
  obtain g1 where s: "generate_step W Incremental ents e g = Inr g1" by blast
  have rest: "\<forall>ne \<in> set es. asc ''README.md'' \<notin> set (construct_directory_path ents (snd ne))"
    using Cons.prems(3) by simp
  have "\<exists>g'. generate_loop W Incremental ents es g1 = Inr g'"
    by (rule Cons.IH [OF generate_step_wf [OF Cons.prems(1) s]
          only_readme_files_step [OF Cons.prems(2) s] rest Cons.prems(4)])
  with s show ?case by (simp add: ne)
qed

text \<open>
  On a well-formed file system whose only files are descriptor files, and where no write
  is refused, an incremental run over a readable canonical text reports success.
\<close>

lemma incremental_run_succeeds:
  assumes "wf_fs (fs st)" and "only_readme_files (fs st)" and "tree_file st = Some c"
    and "\<forall>p. \<not> write_refused st p"
  shows "\<exists>rep. fst (generate_project_from_holy_tree U Incremental st) = Generated rep"
proof -
  define ents where "ents = parse_lines U (split_char 10 c) [] []"
  define g0 where "g0 = \<lparr>gp_fs = fs st, created_directories = [], generated_files = []\<rparr>"
  have ok: "list_all entry_ok ents"
    unfolding ents_def by (rule parse_lines_entries) simp
  have nr: "\<forall>ne \<in> set ents. asc ''README.md'' \<notin> set (construct_directory_path ents (snd ne))"
  proof
    fix ne assume "ne \<in> set ents"
    with ok have "entry_ok ne" by (auto simp: list_all_iff)
    then have "46 \<notin> set (name (snd ne))" by (simp add: entry_ok_def)
    then show "asc ''README.md'' \<notin> set (construct_directory_path ents (snd ne))"
      by (rule directory_path_no_readme_segment [OF ok])
  qed
  have "wf_fs (gp_fs g0)" and "only_readme_files (gp_fs g0)"
    using assms(1,2) by (simp_all add: g0_def)
  from generate_loop_succeeds [OF this nr assms(4)]
  obtain g where "generate_loop (write_refused st) Incremental ents ents g0 = Inr g" by blast
  then show ?thesis
    using generate_readable [OF assms(3) _ ents_def g0_def, of Incremental] by simp
qed

section \<open>Runs on the small tree\<close>

lemma asc_more_code_points:
  "asc ''4/4.2'' = [52, 47, 52, 46, 50]"
  by (simp_all add: asc_def)

lemma no_newline_in_lines:
  "10 \<notin> set line_dom4" "10 \<notin> set line_obj42" "10 \<notin> set line_lay421"
  "10 \<notin> set line_obj43" "10 \<notin> set line_dom5" "10 \<notin> set line_obj421" "10 \<notin> set line_lay7"
  unfolding line_code_points by simp_all

lemma split_small_tree: "split_char 10 small_tree = [line_dom4, line_obj42, line_lay421]"
  unfolding small_tree_def by (rule split_char_join) (auto simp: no_newline_in_lines)

lemma first_component_42: "first_component [52, 46, 50] = [52]"
  by (simp add: first_component_def)

lemma parse_small_tree:
  "parse_lines U (split_char 10 small_tree) [] [] = small_graph"
  unfolding split_small_tree small_graph_def ent_dom4_def ent_obj42_def ent_lay421_def
  by (simp add: parse_line_dom4 strip_line_dom4 parse_line_obj42 strip_line_obj42
      parse_line_lay421 strip_line_lay421 asc_code_points asc_more_code_points
      first_component_42)

lemma layer_dir_small_graph: "construct_directory_path small_graph ent_lay421 = layer_dir"
  unfolding small_graph_def ent_dom4_def ent_obj42_def ent_lay421_def layer_dir_def
    asc_code_points
  by (simp add: construct_directory_path_def path_parts_def project_root_def
      get_entity_by_number_def first_component_def asc_code_points)

lemma generate_entities:
  assumes "tree_file st = Some c" and "m \<noteq> Validate"
  shows "entities (snd (generate_project_from_holy_tree U m st)) =
     parse_lines U (split_char 10 c) [] []"
  using generate_readable [OF assms refl refl, of U] by (simp split: sum.splits)

lemma wf_empty_fs: "wf_fs empty_fs"
  by (simp add: wf_fs_def empty_fs_def)

lemma only_readme_files_empty_fs: "only_readme_files empty_fs"
  by (simp add: only_readme_files_def empty_fs_def is_file_def)

lemma small_run_layer_directory:
  shows "fs (snd small_run) layer_dir = Some Dir" and "entities (snd small_run) = small_graph"
proof -
  let ?st = "fresh_server small_tree empty_fs"
  have tf: "tree_file ?st = Some small_tree" and f0: "fs ?st = empty_fs"
    and nr: "\<forall>p. \<not> write_refused ?st p"
    by (simp_all add: fresh_server_def)
  obtain rep where rep: "fst small_run = Generated rep"
    using incremental_run_succeeds [of ?st small_tree ucd_ascii] wf_empty_fs
      only_readme_files_empty_fs tf f0 nr
    unfolding small_run_def by auto
  show ents: "entities (snd small_run) = small_graph"
    unfolding small_run_def using generate_entities [OF tf, of Incremental ucd_ascii]
    by (simp add: parse_small_tree)
  have "generate_project_from_holy_tree ucd_ascii Incremental ?st = (Generated rep, snd small_run)"
    using rep unfolding small_run_def by (metis prod.collapse)
  moreover have "(asc ''4.2.1'', ent_lay421) \<in> set (entities (snd small_run))"
    by (simp add: ents small_graph_def)
  ultimately have "\<not> path_exists (fs ?st) (construct_directory_path (entities (snd small_run)) ent_lay421) \<longrightarrow>
      fs (snd small_run) (construct_directory_path (entities (snd small_run)) ent_lay421) = Some Dir"
    using entity_directory_after_run by blast
  then show "fs (snd small_run) layer_dir = Some Dir"
    by (simp add: ents layer_dir_small_graph fresh_server_def empty_fs_def path_exists_def)
qed

text \<open>
  C4. After a run that reports success, the resolved path of every entity of the graph
  exists, a Layer's like a Domain's or an Object's, and where nothing stood before the run
  it is a directory. The classification plays no part: the parser leaves it empty on every
  entity.
\<close>

theorem every_entity_gets_its_directory:
  assumes "generate_project_from_holy_tree U m st = (Generated rep, st')"
    and "(n, e) \<in> set (entities st')"
  shows "classif e = empty_classification \<and>
     path_exists (fs st') (construct_directory_path (entities st') e) \<and>
     (\<not> path_exists (fs st) (construct_directory_path (entities st') e) \<longrightarrow>
        fs st' (construct_directory_path (entities st') e) = Some Dir)"
  using assms by (rule entity_directory_after_run)

lemma small_run_succeeds: "\<exists>rep. small_run = (Generated rep, snd small_run)"
proof -
  let ?st = "fresh_server small_tree empty_fs"
  have "tree_file ?st = Some small_tree" and "fs ?st = empty_fs"
    and "\<forall>p. \<not> write_refused ?st p"
    by (simp_all add: fresh_server_def)
  then obtain rep where "fst small_run = Generated rep"
    using incremental_run_succeeds [of ?st small_tree ucd_ascii] wf_empty_fs
      only_readme_files_empty_fs
    unfolding small_run_def by auto
  then show ?thesis by (metis prod.collapse)
qed

text \<open>
  C4, against the claim as stated: the small tree holds the Layer \<open>4.2.1\<close>, whose
  classification is empty, and an incremental run on an empty file system makes the
  directory \<open>ROMILLM_Project/Routing_Engine/Processing_Router/Config\<close> for it.
\<close>

theorem layer_directory_counterexample:
  "map_of (entities (snd small_run)) (asc ''4.2.1'') = Some ent_lay421 \<and>
   etype ent_lay421 = Layer \<and>
   project_structure (classif ent_lay421) = None \<and>
   construct_directory_path (entities (snd small_run)) ent_lay421 = layer_dir \<and>
   empty_fs layer_dir = None \<and>
   fs (snd small_run) layer_dir = Some Dir"
proof -
  have "map_of (entities (snd small_run)) (asc ''4.2.1'') = Some ent_lay421"
    by (simp add: small_run_layer_directory small_graph_def asc_code_points)
  moreover have "etype ent_lay421 = Layer \<and> project_structure (classif ent_lay421) = None"
    by (simp add: ent_lay421_def empty_classification_def)
  moreover have "construct_directory_path (entities (snd small_run)) ent_lay421 = layer_dir"
    by (simp add: small_run_layer_directory layer_dir_small_graph)
  moreover have "empty_fs layer_dir = None"
    by (simp add: empty_fs_def)
  ultimately show ?thesis
    by (simp add: small_run_layer_directory)
qed

theorem every_entity_gets_its_directory_witness:
  "\<exists>rep. small_run = (Generated rep, snd small_run) \<and>
     (asc ''4.2.1'', ent_lay421) \<in> set (entities (snd small_run)) \<and>
     etype ent_lay421 = Layer \<and>
     classif ent_lay421 = empty_classification \<and>
     path_exists (fs (snd small_run)) layer_dir \<and>
     fs (snd small_run) layer_dir = Some Dir"
proof -
  obtain rep where rep: "small_run = (Generated rep, snd small_run)"
    using small_run_succeeds by blast
  have mem: "(asc ''4.2.1'', ent_lay421) \<in> set (entities (snd small_run))"
    by (simp add: small_run_layer_directory small_graph_def)
  have "\<not> path_exists (fs (fresh_server small_tree empty_fs)) layer_dir"
    by (simp add: fresh_server_def empty_fs_def path_exists_def)
  with every_entity_gets_its_directory [OF rep [unfolded small_run_def] mem [unfolded small_run_def]]
  have "classif ent_lay421 = empty_classification \<and>
     path_exists (fs (snd small_run)) layer_dir \<and> fs (snd small_run) layer_dir = Some Dir"
    by (simp add: small_run_layer_directory layer_dir_small_graph small_run_def [symmetric])
  with rep mem show ?thesis by (auto simp: ent_lay421_def)
qed

section \<open>What a run never removes\<close>

lemma mkdir_parents_keeps_dir:
  "mkdir_parents f p = Inr f1 \<Longrightarrow> f q = Some Dir \<Longrightarrow> f1 q = Some Dir"
  by (auto simp: mkdir_parents_def split: if_splits)

lemma write_text_keeps_dir:
  "write_text W f w c = Inr f1 \<Longrightarrow> f q = Some Dir \<Longrightarrow> f1 q = Some Dir"
  by (auto simp: write_text_def split: if_splits)

lemma generate_step_keeps_dir:
  assumes "gp_fs g q = Some Dir"
  shows "case generate_step W m ents e g of Inl f \<Rightarrow> f q = Some Dir | Inr g' \<Rightarrow> gp_fs g' q = Some Dir"
  using assms
  by (auto simp: generate_step_def generate_basic_files_def Let_def
      split: sum.splits if_splits
      dest: mkdir_parents_keeps_dir write_text_keeps_dir)

lemma generate_loop_keeps_dir:
  "gp_fs g q = Some Dir \<Longrightarrow>
     (case generate_loop W m ents es g of Inl f \<Rightarrow> f q = Some Dir | Inr g' \<Rightarrow> gp_fs g' q = Some Dir)"
proof (induction es arbitrary: g)
  case Nil
  then show ?case by simp
next
  case (Cons ne es)
  obtain n e where ne: "ne = (n, e)" by (cases ne)
  show ?case
  proof (cases "generate_step W m ents e g")
    case (Inl f)
    with generate_step_keeps_dir [OF Cons.prems, of W m ents e] show ?thesis by (simp add: ne)
  next
    case (Inr g1)
    with generate_step_keeps_dir [OF Cons.prems, of W m ents e] have "gp_fs g1 q = Some Dir" by simp
    from Cons.IH [OF this] Inr show ?thesis by (simp add: ne)
  qed
qed

text \<open>No run, in whatever mode, removes a directory.\<close>

lemma generate_keeps_directories:
  assumes "fs st q = Some Dir"
  shows "fs (snd (generate_project_from_holy_tree U m st)) q = Some Dir"
proof (cases "tree_file st")
  case None
  with assms show ?thesis
    by (cases "m = Validate")
      (simp_all add: generate_unreadable generate_project_from_holy_tree_def
        validate_project_structure_def parse_holy_tree_unreadable)
next
  case (Some c)
  show ?thesis
  proof (cases "m = Validate")
    case True
    with assms show ?thesis
      using parse_holy_tree_readable [OF Some, of U]
      by (auto simp: generate_project_from_holy_tree_def validate_project_structure_def Let_def)
  next
    case False
    define ents where "ents = parse_lines U (split_char 10 c) [] []"
    define g0 where "g0 = \<lparr>gp_fs = fs st, created_directories = [], generated_files = []\<rparr>"
    have "gp_fs g0 q = Some Dir"
      using assms by (simp add: g0_def)
    from generate_loop_keeps_dir [OF this, of "write_refused st" Full ents ents]
      generate_loop_keeps_dir [OF this, of "write_refused st" Incremental ents ents]
    show ?thesis
      using generate_readable [OF Some False ents_def g0_def] False
      by (cases m) (auto split: sum.splits)
  qed
qed

text \<open>
  C3. A run in mode \<open>full\<close> deletes nothing. The directory \<open>ROMILLM_Project/Old\<close>, which
  no entity of the small tree accounts for, stands in the generation root before the run
  and still stands there after it.
\<close>

theorem full_mode_keeps_stale_directory:
  "stale_fs [asc ''ROMILLM_Project'', asc ''Old''] = Some Dir \<and>
   entities (snd (generate_project_from_holy_tree ucd_ascii Full
      (fresh_server small_tree stale_fs))) = small_graph \<and>
   fs (snd (generate_project_from_holy_tree ucd_ascii Full
      (fresh_server small_tree stale_fs))) [asc ''ROMILLM_Project'', asc ''Old''] = Some Dir"
proof -
  have s: "stale_fs [asc ''ROMILLM_Project'', asc ''Old''] = Some Dir"
    by (simp add: stale_fs_def)
  then have "fs (fresh_server small_tree stale_fs) [asc ''ROMILLM_Project'', asc ''Old''] = Some Dir"
    by (simp add: fresh_server_def)
  then have "fs (snd (generate_project_from_holy_tree ucd_ascii Full
      (fresh_server small_tree stale_fs))) [asc ''ROMILLM_Project'', asc ''Old''] = Some Dir"
    by (rule generate_keeps_directories)
  moreover have "entities (snd (generate_project_from_holy_tree ucd_ascii Full
      (fresh_server small_tree stale_fs))) = small_graph"
    using generate_entities [of "fresh_server small_tree stale_fs" small_tree Full ucd_ascii]
    by (simp add: fresh_server_def parse_small_tree)
  ultimately show ?thesis using s by simp
qed

section \<open>The validator\<close>

lemma validate_raises:
  assumes "(n, e) \<in> set ents" and "level e = 1"
  shows "validate_holy_tree_structure ents = Inl AttributeError"
proof -
  have "e \<in> set (get_entities_by_level ents 1)"
    using assms by (force simp: get_entities_by_level_def)
  then have "get_entities_by_level ents 1 \<noteq> []" by auto
  then show ?thesis by (simp add: validate_holy_tree_structure_def Let_def)
qed

lemma validate_returns:
  assumes "get_entities_by_level ents 1 = []"
  shows "validate_holy_tree_structure ents =
     Inr \<lparr>valid = (missing_parent_issues ents = []),
          issues = missing_parent_issues ents,
          integrity_score =
            str_int (100 - int (length (missing_parent_issues ents)) * 10) @ [37]\<rparr>"
  using assms by (simp add: validate_holy_tree_structure_def Let_def)

text \<open>
  C5. On the graph of the small tree, which has a level-1 entity and no structural issue
  at all, the validator does not return a report: its second loop raises
  \<^verbatim>\<open>AttributeError\<close>.
\<close>

theorem validate_raises_on_small_tree:
  "validate_holy_tree_structure (parse_lines ucd_ascii (split_char 10 small_tree) [] []) =
     Inl AttributeError"
proof -
  have "(asc ''4'', ent_dom4) \<in> set small_graph" by (simp add: small_graph_def)
  moreover have "level ent_dom4 = 1" by (simp add: ent_dom4_def)
  ultimately show ?thesis
    unfolding parse_small_tree by (rule validate_raises)
qed

lemma orphan_numbers_code_points:
  "orphan_numbers =
     [[49, 46, 49], [50, 46, 49], [51, 46, 49], [52, 46, 49], [53, 46, 49], [54, 46, 49],
      [55, 46, 49], [56, 46, 49], [57, 46, 49], [49, 48, 46, 49], [49, 49, 46, 49]]"
  by (simp add: orphan_numbers_def asc_def)

lemma asc_L_code_points: "asc '' L'' = [32, 76]" "asc ''L'' = [76]"
  by (simp_all add: asc_def)

lemma parse_orphan_line:
  "\<forall>num \<in> set orphan_numbers.
     parse_ascii_line U (orphan_line num) [] = Some (orphan_entity num) \<and>
     strip (orphan_line num) \<noteq> [] \<and> \<not> startswith (strip (orphan_line num)) [35]"
  unfolding orphan_numbers_code_points orphan_entity_def orphan_line_def asc_L_code_points
  by (simp add: parse_line_simps)

lemma parse_orphan_lines: "parse_lines U orphan_lines [] [] = orphan_graph"
  using parse_orphan_line [of U]
  unfolding orphan_lines_def orphan_graph_def orphan_numbers_code_points
  by (simp add: orphan_entity_def)

lemma orphan_parents_missing:
  "\<forall>ne \<in> set orphan_graph. missing_parent orphan_graph ne"
  unfolding orphan_graph_def orphan_numbers_code_points
  by (simp add: missing_parent_def orphan_entity_def parent_number_def)

lemma all_missing_issues:
  "\<forall>ne \<in> set es. missing_parent ents ne \<Longrightarrow>
     concat (map (\<lambda>ne. if missing_parent ents ne then [missing_parent_message (fst ne)] else []) es) =
     map (\<lambda>ne. missing_parent_message (fst ne)) es"
  by (induction es) auto

lemma orphan_issues:
  "missing_parent_issues orphan_graph = map missing_parent_message orphan_numbers"
proof -
  have "missing_parent_issues orphan_graph = map (\<lambda>ne. missing_parent_message (fst ne)) orphan_graph"
    unfolding missing_parent_issues_def
    using orphan_parents_missing by (rule all_missing_issues)
  then show ?thesis by (simp add: orphan_graph_def comp_def)
qed

lemma orphan_levels: "get_entities_by_level orphan_graph 1 = []"
  by (simp add: get_entities_by_level_def orphan_graph_def orphan_entity_def comp_def)

lemma parse_lone_layer:
  "parse_lines U [line_lay421] [] [] = [(asc ''4.2.1'', ent_lay421\<lparr>parent_path := []\<rparr>)]"
  by (simp add: parse_line_lay421 strip_line_lay421 ent_lay421_def)

lemma lone_layer_message:
  "missing_parent_message (asc ''4.2.1'') = asc ''Missing parent for 4.2.1: parent 4.2 not found''"
  by (simp add: missing_parent_message_def parent_number_def asc_def)

lemma lone_layer_issues:
  "missing_parent_issues [(asc ''4.2.1'', ent_lay421\<lparr>parent_path := []\<rparr>)] =
     [asc ''Missing parent for 4.2.1: parent 4.2 not found'']"
  unfolding lone_layer_message [symmetric]
  by (simp add: missing_parent_issues_def missing_parent_def ent_lay421_def parent_number_def
      asc_code_points)

text \<open>
  C6. On the graph that holds the Layer \<open>4.2.1\<close> and nothing else the validator reports
  the one issue of the specification's example and the score \<open>90%\<close>. But the score is
  never capped at zero: on the graph of the eleven orphan layers there are eleven issues
  and the score is \<open>-10%\<close>.
\<close>

theorem validate_score_goes_negative:
  "validate_holy_tree_structure (parse_lines ucd_ascii [line_lay421] [] []) =
     Inr \<lparr>valid = False,
          issues = [asc ''Missing parent for 4.2.1: parent 4.2 not found''],
          integrity_score = asc ''90%''\<rparr> \<and>
   validate_holy_tree_structure (parse_lines ucd_ascii orphan_lines [] []) =
     Inr \<lparr>valid = False,
          issues = map missing_parent_message orphan_numbers,
          integrity_score = asc ''-10%''\<rparr> \<and>
   length (map missing_parent_message orphan_numbers) = 11"
proof -
  have s1: "str_int 90 @ [37] = asc ''90%''"
    and s11: "str_int (- 10) @ [37] = asc ''-10%''"
    by (simp_all add: str_int_def asc_def)
  have len: "length orphan_numbers = 11"
    by (simp add: orphan_numbers_def)
  have "get_entities_by_level [(asc ''4.2.1'', ent_lay421\<lparr>parent_path := []\<rparr>)] 1 = []"
    by (simp add: get_entities_by_level_def ent_lay421_def)
  from validate_returns [OF this]
  have "validate_holy_tree_structure (parse_lines ucd_ascii [line_lay421] [] []) =
     Inr \<lparr>valid = False,
          issues = [asc ''Missing parent for 4.2.1: parent 4.2 not found''],
          integrity_score = asc ''90%''\<rparr>"
    unfolding parse_lone_layer lone_layer_issues by (simp add: s1)
  moreover from validate_returns [OF orphan_levels]
  have "validate_holy_tree_structure (parse_lines ucd_ascii orphan_lines [] []) =
     Inr \<lparr>valid = False,
          issues = map missing_parent_message orphan_numbers,
          integrity_score = asc ''-10%''\<rparr>"
    unfolding parse_orphan_lines orphan_issues by (simp add: len s11) (simp add: orphan_numbers_def)
  ultimately show ?thesis by (simp add: len)
qed

section \<open>Adding an entity under a domain the text does not name\<close>

lemma find_insert_index_unknown_domain:
  assumes "\<forall>line \<in> set lines. \<not> contains line (domain cfg)"
  shows "find_insert_index U cfg lines = None"
proof -
  have no: "\<not> contains line (domain cfg @ [47])" if "line \<in> set lines" for line
    using assms that contains_prefix by blast
  then have "find_first
      (\<lambda>line. contains line (domain cfg @ [47]) \<and>
              startswith (proposed_number cfg) (first_token (strip line))) lines = None"
    by (intro find_first_None) simp
  moreover have "find_first
      (\<lambda>line. contains line (domain cfg @ [47]) \<or> contains line (domain cfg @ [47])) lines = None"
    using no by (intro find_first_None) simp
  ultimately show ?thesis by (simp add: find_insert_index_def)
qed

text \<open>
  C10. With the three required fields present and a readable canonical text in which no
  line holds the domain name, \<^verbatim>\<open>add_entity_to_holy_tree\<close> finds no insertion index, falls
  off its end and returns \<^verbatim>\<open>None\<close>; the state, the canonical text in it, is unchanged.
\<close>

theorem add_entity_unknown_domain_returns_none:
  assumes "entity_name cfg \<noteq> []" and "domain cfg \<noteq> []" and "proposed_number cfg \<noteq> []"
    and "tree_file st = Some text"
    and "\<forall>line \<in> set (split_char 10 text). \<not> contains line (domain cfg)"
  shows "add_entity_to_holy_tree U cfg st = (None, st)"
  using assms find_insert_index_unknown_domain [OF assms(5), of U]
  by (simp add: add_entity_to_holy_tree_def)

lemma asc_Nope: "asc ''Nope'' = [78, 111, 112, 101]"
  by (simp add: asc_def)

lemma nope_not_in_small_tree:
  "\<not> contains line_dom4 (asc ''Nope'')" "\<not> contains line_obj42 (asc ''Nope'')"
  "\<not> contains line_lay421 (asc ''Nope'')"
  unfolding line_code_points asc_Nope by (simp_all add: startswith_def)

theorem add_entity_unknown_domain_returns_none_witness:
  "entity_name unknown_domain_config \<noteq> [] \<and> domain unknown_domain_config \<noteq> [] \<and>
   proposed_number unknown_domain_config \<noteq> [] \<and>
   tree_file (fresh_server small_tree empty_fs) = Some small_tree \<and>
   \<not> contains line_dom4 (asc ''Nope'') \<and> \<not> contains line_obj42 (asc ''Nope'') \<and>
   \<not> contains line_lay421 (asc ''Nope'') \<and>
   add_entity_to_holy_tree ucd_ascii unknown_domain_config (fresh_server small_tree empty_fs) =
     (None, fresh_server small_tree empty_fs)"
proof -
  have f: "entity_name unknown_domain_config \<noteq> []" "domain unknown_domain_config \<noteq> []"
    "proposed_number unknown_domain_config \<noteq> []"
    by (simp_all add: unknown_domain_config_def asc_def)
  have t: "tree_file (fresh_server small_tree empty_fs) = Some small_tree"
    by (simp add: fresh_server_def)
  have n: "\<forall>line \<in> set (split_char 10 small_tree). \<not> contains line (domain unknown_domain_config)"
    by (simp add: split_small_tree unknown_domain_config_def nope_not_in_small_tree)
  from add_entity_unknown_domain_returns_none [OF f t n, of ucd_ascii] f t
  show ?thesis by (simp add: nope_not_in_small_tree)
qed

section \<open>Removing an entity from the sample tree\<close>

lemma split_sample_tree:
  "split_char 10 sample_tree = [line_dom4, line_obj42, line_lay421, line_obj43, line_dom5]"
  unfolding sample_tree_def by (rule split_char_join) (auto simp: no_newline_in_lines)

lemma sample_tree_lines_to_remove:
  "lines_to_remove ucd_ascii (asc ''Processing_Router'')
     [line_dom4, line_obj42, line_lay421, line_obj43, line_dom5] = Some [1, 2, 3, 4]"
  unfolding line_code_points asc_code_points
  by (simp add: lines_to_remove_def startswith_def glyph_defs strip_def is_space_def
      first_token_def starts_with_digit_def is_digit_def ucd_ascii_def)

lemma sample_tree_remove_lines:
  "remove_lines [Suc 0, 2, 3, 4] [a, b, c, d, e] = [a]"
  by (simp add: remove_lines_def list_pop_def)

text \<open>
  C2. Removing \<open>Processing_Router\<close> from the sample tree takes away four lines: the
  object's own line and its layer, and also the line of the sibling object \<open>4.3\<close> and
  the line of the next domain \<open>5\<close>. Only the line of domain \<open>4\<close> is left. The first
  token of every tree line is a branch glyph, so the test that should end the cascade at
  the next numbered entity never holds.
\<close>

theorem remove_takes_sibling_and_domain:
  "remove_entity_from_holy_tree ucd_ascii (asc ''Processing_Router'') (asc ''preserve'')
     (fresh_server sample_tree empty_fs) =
     (Removed \<lparr>entity_removed = asc ''Processing_Router'', lines_removed = 4,
               cleanup_mode = asc ''preserve'', cleanup = Preserved\<rparr>,
      fresh_server line_dom4 empty_fs)"
proof -
  have m: "asc ''preserve'' \<noteq> asc ''archive''" "asc ''preserve'' \<noteq> asc ''delete''"
    by (simp_all add: asc_def)
  show ?thesis
    by (simp add: remove_entity_from_holy_tree_def fresh_server_def split_sample_tree
        sample_tree_lines_to_remove sample_tree_remove_lines m)
qed

section \<open>A second incremental run\<close>



section \<open>A run that breaks off while writing a descriptor\<close>














section \<open>The path resolver and the validator's missing-parent test\<close>

lemma list_of_length_two: "length xs = 2 \<Longrightarrow> \<exists>a b. xs = [a, b]"
  by (auto simp: numeral_2_eq_2 length_Suc_conv)

lemma list_of_length_three: "length xs = 3 \<Longrightarrow> \<exists>a b c. xs = [a, b, c]"
  by (auto simp: numeral_3_eq_3 length_Suc_conv)

lemma upt_one_three: "[1..<3] = [1, 2]" and upt_one_two: "[1..<2] = [1::nat]"
  by (simp_all add: upt_conv_Cons)


text \<open>When no lookup misses and the kind fits the level, there is a segment for each level.\<close>

lemma no_miss_parts_length:
  assumes "\<not> ancestor_miss ents e" and "kind_fits_level e"
    and "level e = length (split_char 46 (number e))"
  shows "length (path_parts ents e) = level e"
proof (cases "etype e")
  case Domain
  with assms(2) show ?thesis by (simp add: kind_fits_level_def path_parts_def)
next
  case Object
  with assms(1) obtain d where "map_of ents (first_component (number e)) = Some d"
    by (auto simp: ancestor_miss_def)
  with Object assms(2) show ?thesis
    by (simp add: kind_fits_level_def path_parts_def get_entity_by_number_def)
next
  case Layer
  with assms(1) obtain d ob where "map_of ents (first_component (number e)) = Some d"
    and "map_of ents (join [46] (take 2 (split_char 46 (number e)))) = Some ob"
    by (auto simp: ancestor_miss_def)
  moreover from Layer assms(2,3) have "level e = 3" "length (split_char 46 (number e)) = 3"
    by (simp_all add: kind_fits_level_def)
  ultimately show ?thesis using Layer
    by (simp add: path_parts_def get_entity_by_number_def Let_def)
qed

text \<open>An entity stored under a number without dot has level 1 and no parent to miss.\<close>

lemma top_level_no_issue:
  assumes "map_of (parse_lines U ls [] []) a = Some ae" and "46 \<notin> set a"
  shows "\<not> missing_parent (parse_lines U ls [] []) (a, ae)"
  using parsed_entry(2) [OF assms(1)] assms(2)
  by (simp add: missing_parent_def split_char_plain)

text \<open>
  In a parsed graph, for an entity whose kind fits its level, a lookup of the resolver
  misses exactly when a missing-parent issue is reachable from the entity.
\<close>

lemma miss_iff_issue:
  assumes e: "map_of (parse_lines U ls [] []) n = Some e" and fits: "kind_fits_level e"
  shows "ancestor_miss (parse_lines U ls [] []) e \<longleftrightarrow>
     \<not> no_reachable_issue (parse_lines U ls [] []) n e"
proof -
  let ?ents = "parse_lines U ls [] []"
  have num: "number e = n" and lev: "level e = length (split_char 46 n)"
    using parsed_entry [OF e] by simp_all
  show ?thesis
  proof (cases "etype e")
    case Domain
    with fits have l1: "level e = 1" by (simp add: kind_fits_level_def)
    then have "ancestor_numbers n = []"
      using lev by (simp add: ancestor_numbers_def)
    with Domain l1 show ?thesis
      by (simp add: ancestor_miss_def no_reachable_issue_def missing_parent_def)
  next
    case Object
    with fits have l2: "level e = 2" by (simp add: kind_fits_level_def)
    with lev obtain a b where ab: "split_char 46 n = [a, b]"
      using list_of_length_two [of "split_char 46 n"] by auto
    have "a \<in> set (split_char 46 n)" by (simp add: ab)
    then have a: "46 \<notin> set a" by (rule split_char_no_sep)
    have fc: "first_component (number e) = a"
      by (simp add: num first_component_def ab)
    have pn: "parent_number n = a" by (simp add: parent_number_def ab)
    have an: "ancestor_numbers n = [a]"
      by (simp add: ancestor_numbers_def ab upt_one_two)
    have miss: "ancestor_miss ?ents e \<longleftrightarrow> map_of ?ents a = None"
      using Object by (simp add: ancestor_miss_def fc)
    have own: "missing_parent ?ents (n, e) \<longleftrightarrow> map_of ?ents a = None"
      using l2 by (simp add: missing_parent_def pn)
    show ?thesis
    proof (cases "map_of ?ents a")
      case None
      with miss own show ?thesis by (simp add: no_reachable_issue_def)
    next
      case (Some ae)
      from top_level_no_issue [OF Some a] Some miss own show ?thesis
        by (simp add: no_reachable_issue_def an)
    qed
  next
    case Layer
    with fits have l3: "level e = 3" by (simp add: kind_fits_level_def)
    with lev obtain a b c where abc: "split_char 46 n = [a, b, c]"
      using list_of_length_three [of "split_char 46 n"] by auto
    have "a \<in> set (split_char 46 n)" "b \<in> set (split_char 46 n)" by (simp_all add: abc)
    then have a: "46 \<notin> set a" and b: "46 \<notin> set b" by (auto dest: split_char_no_sep)
    let ?ab = "join [46] [a, b]"
    have sab: "split_char 46 ?ab = [a, b]"
      by (rule split_char_join) (use a b in auto)
    have fc: "first_component (number e) = a"
      by (simp add: num first_component_def abc)
    have t2: "join [46] (take 2 (split_char 46 (number e))) = ?ab"
      by (simp add: num abc)
    have pn: "parent_number n = ?ab" by (simp add: parent_number_def abc)
    have pab: "parent_number ?ab = a" by (simp only: parent_number_def sab) simp
    have an: "ancestor_numbers n = [a, ?ab]"
      by (simp add: ancestor_numbers_def abc upt_one_three)
    have miss: "ancestor_miss ?ents e \<longleftrightarrow> map_of ?ents a = None \<or> map_of ?ents ?ab = None"
      using Layer by (simp only: ancestor_miss_def fc t2) simp
    have own: "missing_parent ?ents (n, e) \<longleftrightarrow> map_of ?ents ?ab = None"
      using l3 by (simp add: missing_parent_def pn)
    have top: "case map_of ?ents a of None \<Rightarrow> True | Some ae \<Rightarrow> \<not> missing_parent ?ents (a, ae)"
      using top_level_no_issue [OF _ a] by (auto split: option.splits)
    show ?thesis
    proof (cases "map_of ?ents ?ab")
      case None
      with miss own show ?thesis by (simp add: no_reachable_issue_def)
    next
      case (Some ob)
      have "level ob = 2" using parsed_entry(2) [OF Some] by (simp only: sab) simp
      then have "missing_parent ?ents (?ab, ob) \<longleftrightarrow> map_of ?ents a = None"
        by (simp only: missing_parent_def pab fst_conv snd_conv) simp
      with Some miss own top show ?thesis
        by (simp add: no_reachable_issue_def an)
    qed
  qed
qed


lemma parse_flat_layer_lines:
  "parse_lines U flat_layer_lines [] [] = [(asc ''4'', ent_dom4), (asc ''7'', ent_lay7)]"
  unfolding flat_layer_lines_def ent_dom4_def ent_lay7_def
  by (simp add: parse_line_dom4 strip_line_dom4 parse_line_lay7 strip_line_lay7
      asc_code_points)




text \<open>
  C8. For an entity of a parsed graph whose kind fits its level and from which no
  missing-parent issue is reachable, the resolver adds exactly as many segments to the
  project root as the entity's level.
\<close>

theorem sound_entity_path_has_level_segments:
  assumes "map_of (parse_lines U ls [] []) n = Some e" and "kind_fits_level e"
    and "no_reachable_issue (parse_lines U ls [] []) n e"
  shows "length (path_parts (parse_lines U ls [] []) e) = level e \<and>
     construct_directory_path (parse_lines U ls [] []) e =
       project_root @ path_parts (parse_lines U ls [] []) e"
proof -
  have "\<not> ancestor_miss (parse_lines U ls [] []) e"
    using miss_iff_issue [OF assms(1,2)] assms(3) by simp
  moreover have "level e = length (split_char 46 (number e))"
    using parsed_entry(1,2) [OF assms(1)] by simp
  ultimately show ?thesis
    using assms(2) by (simp add: no_miss_parts_length construct_directory_path_def)
qed

theorem sound_entity_path_has_level_segments_witness:
  "map_of (parse_lines ucd_ascii (split_char 10 small_tree) [] []) (asc ''4.2.1'') =
     Some ent_lay421 \<and>
   kind_fits_level ent_lay421 \<and>
   no_reachable_issue (parse_lines ucd_ascii (split_char 10 small_tree) [] []) (asc ''4.2.1'')
     ent_lay421 \<and>
   length (path_parts (parse_lines ucd_ascii (split_char 10 small_tree) [] []) ent_lay421) = 3"
proof -
  let ?ents = "parse_lines ucd_ascii (split_char 10 small_tree) [] []"
  have m: "map_of ?ents (asc ''4.2.1'') = Some ent_lay421"
    unfolding parse_small_tree small_graph_def asc_code_points by simp
  have k: "kind_fits_level ent_lay421"
    by (simp add: kind_fits_level_def ent_lay421_def)
  have r: "no_reachable_issue ?ents (asc ''4.2.1'') ent_lay421"
    unfolding parse_small_tree small_graph_def asc_code_points
    by (simp add: no_reachable_issue_def ancestor_numbers_def missing_parent_def
        parent_number_def upt_one_three ent_dom4_def ent_obj42_def ent_lay421_def)
  have l: "level ent_lay421 = 3" by (simp add: ent_lay421_def)
  from sound_entity_path_has_level_segments [OF m k r] m k r l show ?thesis by simp
qed

text \<open>
  C8, against the claim as stated: a top-level line without folder icon is a Layer of
  level 1. The graph has no missing-parent issue at all, yet the resolver adds no segment
  for the Layer \<open>7\<close>: its number has fewer than two components.
\<close>

theorem flat_layer_no_segment_counterexample:
  "parse_lines ucd_ascii flat_layer_lines [] [] =
     [(asc ''4'', ent_dom4), (asc ''7'', ent_lay7)] \<and>
   missing_parent_issues (parse_lines ucd_ascii flat_layer_lines [] []) = [] \<and>
   no_reachable_issue (parse_lines ucd_ascii flat_layer_lines [] []) (asc ''7'') ent_lay7 \<and>
   etype ent_lay7 = Layer \<and> level ent_lay7 = 1 \<and>
   path_parts (parse_lines ucd_ascii flat_layer_lines [] []) ent_lay7 = [] \<and>
   construct_directory_path (parse_lines ucd_ascii flat_layer_lines [] []) ent_lay7 =
     project_root"
  unfolding parse_flat_layer_lines
  unfolding ent_lay7_def ent_dom4_def asc_code_points
  by (simp add: missing_parent_issues_def missing_parent_def no_reachable_issue_def
      ancestor_numbers_def construct_directory_path_def path_parts_def
      get_entity_by_number_def)

end
